theory Spec2Isabelle
  imports Main "HOL-Library.Word" "HOL-Library.Char_ord" "HOL-Library.List_Lexorder"
    "HOL-Library.Sublist"
begin

section \<open>Failures\<close>

text \<open>
  A Go function of this package fails in one of two ways: it returns a non-nil \<open>error\<close>,
  or it panics. Both are values here: a function that can fail returns \<open>error + 'a\<close>,
  with \<open>Inl\<close> for the failure. \<open>Panic\<close> is a panic that unwinds through every caller
  (no function of the package recovers); the other constructors are returned errors.
  \<open>RespError\<close> stands for the value of \<open>newRespError(resp)\<close>, which is built outside the
  files at hand, and carries the status code of the response.
\<close>

datatype error =
    Panic string
  | ErrorString string
  | UrlError string
  | TransportError string
  | RespError int
  | ConfigError

section \<open>Strings\<close>

text \<open>
  A Go string is a sequence of bytes; \<open>string\<close> (a list of 8-bit \<open>char\<close>) is the same.
  \<open>strings.Cut s sep\<close> splits around the first \<open>sep\<close>; the separators used in this
  package are single bytes.
\<close>

definition byte :: "char \<Rightarrow> nat" where
  "byte c = of_char c"

definition strings_Cut :: "string \<Rightarrow> char \<Rightarrow> string \<times> string \<times> bool" where
  "strings_Cut s sep =
     (if sep \<in> set s
      then (takeWhile (\<lambda>c. c \<noteq> sep) s, drop 1 (dropWhile (\<lambda>c. c \<noteq> sep) s), True)
      else (s, [], False))"

text \<open>\<open>strings.Split s sep\<close> for a one-byte separator: never empty.\<close>

fun strings_Split :: "string \<Rightarrow> char \<Rightarrow> string list" where
  "strings_Split [] sep = [[]]"
| "strings_Split (c # cs) sep =
     (if c = sep then [] # strings_Split cs sep
      else (case strings_Split cs sep of
              [] \<Rightarrow> [[c]]
            | p # ps \<Rightarrow> (c # p) # ps))"

text \<open>\<open>strings.Contains s substr\<close>.\<close>

fun strings_Contains :: "string \<Rightarrow> string \<Rightarrow> bool" where
  "strings_Contains [] sub = (sub = [])"
| "strings_Contains (c # cs) sub = (prefix sub (c # cs) \<or> strings_Contains cs sub)"

text \<open>\<open>strings.HasPrefix\<close> is \<^const>\<open>prefix\<close> with the arguments swapped.\<close>

definition strings_HasPrefix :: "string \<Rightarrow> string \<Rightarrow> bool" where
  "strings_HasPrefix s p = prefix p s"

section \<open>The process environment\<close>

text \<open>\<open>os.Getenv\<close> returns the empty string for a variable that is not set.\<close>

type_synonym environ = "string \<rightharpoonup> string"

definition os_Getenv :: "environ \<Rightarrow> string \<Rightarrow> string" where
  "os_Getenv env k = (case env k of None \<Rightarrow> [] | Some v \<Rightarrow> v)"

section \<open>Regular expressions, as far as \<open>regionMatcher\<close> needs them\<close>

text \<open>
  Go's \<open>regexp\<close> reads its input rune by rune. \<open>rune_width\<close> is the number of bytes
  \<open>utf8.DecodeRuneInString\<close> consumes at the head of a non-empty string: the length of
  a well-formed UTF-8 sequence, and 1 for a byte that starts none (decoded as U+FFFD).
\<close>

definition in_range :: "nat \<Rightarrow> nat \<Rightarrow> char \<Rightarrow> bool" where
  "in_range lo hi c = (lo \<le> byte c \<and> byte c \<le> hi)"

fun rune_width :: "string \<Rightarrow> nat" where
  "rune_width [] = 0"
| "rune_width (c # cs) =
     (let p0 = byte c in
      if p0 < 0x80 then 1
      else if p0 < 0xC2 \<or> 0xF4 < p0 then 1
      else
        let sz = (if p0 < 0xE0 then 2 else if p0 < 0xF0 then 3 else 4 :: nat);
            lo = (if p0 = 0xE0 then 0xA0 else if p0 = 0xF0 then 0x90 else 0x80);
            hi = (if p0 = 0xED then 0x9F else if p0 = 0xF4 then 0x8F else 0xBF)
        in if Suc (length cs) < sz then 1
           else if \<not> in_range lo hi (cs ! 0) then 1
           else if sz \<le> 2 then 2
           else if \<not> in_range 0x80 0xBF (cs ! 1) then 1
           else if sz \<le> 3 then 3
           else if \<not> in_range 0x80 0xBF (cs ! 2) then 1
           else 4)"

text \<open>
  The pattern language: an atom consumes one rune; a node is an atom, a greedy
  repetition of an atom (\<open>*\<close>, \<open>+\<close>) or a capturing group. A character class is a list of
  inclusive byte ranges. The classes and literals of \<open>regionMatcher\<close> are ASCII, and an
  ASCII byte of a Go string is always a rune of its own.
\<close>

datatype atom = Lit char | AnyNotNL | Class "(char \<times> char) list"

datatype node = One atom | Star atom | Plus atom | Cap "node list"

fun atom_width :: "atom \<Rightarrow> string \<Rightarrow> nat option" where
  "atom_width a [] = None"
| "atom_width (Lit c) (x # xs) = (if x = c then Some 1 else None)"
| "atom_width AnyNotNL (x # xs) =
     (if x = CHR 0x0A then None else Some (rune_width (x # xs)))"
| "atom_width (Class rs) (x # xs) =
     (if list_ex (\<lambda>(lo, hi). in_range (byte lo) (byte hi) x) rs then Some 1 else None)"

lemma rune_width_bounds: "s \<noteq> [] \<Longrightarrow> 0 < rune_width s \<and> rune_width s \<le> length s"
  by (cases s) (auto simp: Let_def Suc_le_eq)

lemma atom_width_bounds: "atom_width a s = Some w \<Longrightarrow> 0 < w \<and> w \<le> length s"
  using rune_width_bounds [of s]
  by (cases a; cases s) (auto split: if_splits)

text \<open>
  \<open>star_ends a s\<close>: what is left of \<open>s\<close> after zero, one, two, ... repetitions of the atom.
  A greedy repetition prefers more repetitions, so it tries this list from its end.
\<close>

function star_ends :: "atom \<Rightarrow> string \<Rightarrow> string list" where
  "star_ends a s =
     s # (case atom_width a s of None \<Rightarrow> [] | Some w \<Rightarrow> star_ends a (drop w s))"
  by pat_completeness auto
termination
proof (relation "measure (\<lambda>(a, s). length s)")
  show "wf (measure (\<lambda>(a, s). length s))" by simp
next
  fix a :: atom and s :: string and w :: nat
  assume "atom_width a s = Some w"
  then have "0 < w \<and> w \<le> length s" by (rule atom_width_bounds)
  then show "((a, drop w s), (a, s)) \<in> measure (\<lambda>(a, s). length s)" by auto
qed

declare star_ends.simps [simp del]

text \<open>
  A match state is the rest of the input and the groups captured so far. \<open>m_node\<close> and
  \<open>m_seq\<close> list the states a node, or a sequence of nodes, can end in, in the order a
  backtracking matcher tries them; the first one is the leftmost-first match that Go's
  \<open>regexp\<close> package specifies. Groups are recorded when they close, which is the order
  of their opening parentheses as long as groups are not nested.
\<close>

fun m_node :: "node \<Rightarrow> string \<times> string list \<Rightarrow> (string \<times> string list) list"
  and m_seq :: "node list \<Rightarrow> string \<times> string list \<Rightarrow> (string \<times> string list) list" where
  "m_node (One a) (s, caps) =
     (case atom_width a s of None \<Rightarrow> [] | Some w \<Rightarrow> [(drop w s, caps)])"
| "m_node (Star a) (s, caps) = map (\<lambda>r. (r, caps)) (rev (star_ends a s))"
| "m_node (Plus a) (s, caps) =
     (case atom_width a s of
        None \<Rightarrow> []
      | Some w \<Rightarrow> map (\<lambda>r. (r, caps)) (rev (star_ends a (drop w s))))"
| "m_node (Cap ns) (s, caps) =
     map (\<lambda>(r, cs). (r, cs @ [take (length s - length r) s])) (m_seq ns (s, caps))"
| "m_seq [] st = [st]"
| "m_seq (n # ns) st = concat (map (m_seq ns) (m_node n st))"

text \<open>
  The unanchored search: the match starts at the leftmost rune boundary where one
  exists. The result is the whole match followed by the groups.
\<close>

function find_from :: "node list \<Rightarrow> string \<Rightarrow> string list option" where
  "find_from re s =
     (case m_seq re (s, []) of
        (r, caps) # _ \<Rightarrow> Some (take (length s - length r) s # caps)
      | [] \<Rightarrow> (if s = [] then None else find_from re (drop (rune_width s) s)))"
  by pat_completeness auto
termination
proof (relation "measure (\<lambda>(re, s). length s)")
  show "wf (measure (\<lambda>(re, s). length s))" by simp
next
  fix re :: "node list" and s :: string
  assume "s \<noteq> []"
  then have "0 < rune_width s \<and> rune_width s \<le> length s" by (rule rune_width_bounds)
  then show "((re, drop (rune_width s) s), (re, s)) \<in> measure (\<lambda>(re, s). length s)"
    by auto
qed

declare find_from.simps [simp del]

text \<open>\<open>(*Regexp).FindStringSubmatch\<close>: nil (the empty list) when nothing matches.\<close>

definition FindStringSubmatch :: "node list \<Rightarrow> string \<Rightarrow> string list" where
  "FindStringSubmatch re s = (case find_from re s of None \<Rightarrow> [] | Some m \<Rightarrow> m)"

definition lits :: "string \<Rightarrow> node list" where
  "lits s = map (\<lambda>c. One (Lit c)) s"

text \<open>
  \<^verbatim>\<open>var regionMatcher = regexp.MustCompile("s3[-.]([a-z0-9-]+).amazonaws.com([.a-z0-9]*)")\<close>
  The two dots outside the classes are not escaped: each matches any rune but a newline.
\<close>

definition regionMatcher :: "node list" where
  "regionMatcher =
     lits ''s3'' @
     [One (Class [(CHR ''-'', CHR ''-''), (CHR ''.'', CHR ''.'')]),
      Cap [Plus (Class [(CHR ''a'', CHR ''z''), (CHR ''0'', CHR ''9''), (CHR ''-'', CHR ''-'')])],
      One AnyNotNL] @
     lits ''amazonaws'' @
     [One AnyNotNL] @
     lits ''com'' @
     [Cap [Star (Class [(CHR ''.'', CHR ''.''), (CHR ''a'', CHR ''z''), (CHR ''0'', CHR ''9'')])]]"

section \<open>\<open>path.Clean\<close>\<close>

text \<open>
  \<open>path.Clean\<close> of the Go library, as its source has it: a loop over the path that
  drops empty and \<open>.\<close> elements, resolves \<open>..\<close> against the output written so far, and
  joins what remains with single slashes. \<open>out\<close> is the output buffer, \<open>dotdot\<close> the
  index in it where backtracking must stop, the last argument the unread input.
  \<open>backtrack_to buf dotdot w\<close> is the inner loop
  \<^verbatim>\<open>for out.w > dotdot && out.index(out.w) != '/' { out.w-- }\<close>.
\<close>

function backtrack_to :: "string \<Rightarrow> nat \<Rightarrow> nat \<Rightarrow> nat" where
  "backtrack_to buf dotdot w =
     (if w > dotdot \<and> buf ! w \<noteq> CHR ''/'' then backtrack_to buf dotdot (w - 1) else w)"
  by pat_completeness auto
termination
  by (relation "measure (\<lambda>(buf, dotdot, w). w)") auto

declare backtrack_to.simps [simp del]

function Clean_loop :: "bool \<Rightarrow> string \<Rightarrow> nat \<Rightarrow> string \<Rightarrow> string" where
  "Clean_loop rooted out dotdot [] = out"
| "Clean_loop rooted out dotdot (c # cs) =
     (if c = CHR ''/'' then Clean_loop rooted out dotdot cs
      else if c = CHR ''.'' \<and> (cs = [] \<or> take 1 cs = ''/'')
      then Clean_loop rooted out dotdot cs
      else if c = CHR ''.'' \<and> take 1 cs = ''.''
              \<and> (drop 1 cs = [] \<or> take 1 (drop 1 cs) = ''/'')
      then
        (if length out > dotdot
         then Clean_loop rooted
                (take (backtrack_to out dotdot (length out - 1)) out) dotdot (drop 1 cs)
         else if \<not> rooted
         then let out' = (if length out > 0 then out @ ''/'' else out) @ ''..''
              in Clean_loop rooted out' (length out') (drop 1 cs)
         else Clean_loop rooted out dotdot (drop 1 cs))
      else
        let out' = (if rooted \<and> length out \<noteq> 1 \<or> \<not> rooted \<and> length out \<noteq> 0
                    then out @ ''/'' else out)
        in Clean_loop rooted (out' @ takeWhile (\<lambda>x. x \<noteq> CHR ''/'') (c # cs)) dotdot
             (dropWhile (\<lambda>x. x \<noteq> CHR ''/'') (c # cs)))"
  by pat_completeness auto
termination
proof (relation "measure (\<lambda>(rooted, out, dotdot, rest). length rest)")
  show "wf (measure (\<lambda>(rooted, out, dotdot, rest). length rest))" by simp
next
  fix rooted :: bool and out :: string and dotdot :: nat and c :: char and cs :: string
    and x :: string
  assume "c \<noteq> CHR ''/''"
  have "length (dropWhile (\<lambda>x. x \<noteq> CHR ''/'') cs) \<le> length cs"
    by (rule length_dropWhile_le)
  with \<open>c \<noteq> CHR ''/''\<close>
  show "((rooted, x @ takeWhile (\<lambda>x. x \<noteq> CHR ''/'') (c # cs), dotdot,
           dropWhile (\<lambda>x. x \<noteq> CHR ''/'') (c # cs)),
          (rooted, out, dotdot, c # cs))
        \<in> measure (\<lambda>(rooted, out, dotdot, rest). length rest)"
    by simp
qed (simp_all (no_asm))

definition path_Clean :: "string \<Rightarrow> string" where
  "path_Clean path =
     (if path = [] then ''.''
      else
        let rooted = (take 1 path = ''/'');
            out = (if rooted then Clean_loop True ''/'' 1 (drop 1 path)
                   else Clean_loop False [] 0 path)
        in if out = [] then ''.'' else out)"

text \<open>
  A path element that \<open>path.Clean\<close> keeps as it is: not empty, without a slash, and
  neither \<open>.\<close> nor \<open>..\<close>.
\<close>

definition plain_segment :: "string \<Rightarrow> bool" where
  "plain_segment s = (s \<noteq> [] \<and> CHR ''/'' \<notin> set s \<and> s \<noteq> ''.'' \<and> s \<noteq> ''..'')"

section \<open>\<open>net/url\<close>\<close>

text \<open>
  What \<open>Bucket.url\<close> uses of Go's \<open>net/url\<close> (as of Go 1.17 and later): \<open>url.Parse\<close>, of
  whose result it reads the raw query only; \<open>URL.Query\<close> and \<open>Values.Get\<close>;
  \<open>Values.Add\<close> and \<open>Values.Encode\<close>.
\<close>

definition ishex :: "char \<Rightarrow> bool" where
  "ishex c = (in_range (byte CHR ''0'') (byte CHR ''9'') c
            \<or> in_range (byte CHR ''a'') (byte CHR ''f'') c
            \<or> in_range (byte CHR ''A'') (byte CHR ''F'') c)"

definition unhex :: "char \<Rightarrow> nat" where
  "unhex c =
     (if in_range (byte CHR ''0'') (byte CHR ''9'') c then byte c - byte CHR ''0''
      else if in_range (byte CHR ''a'') (byte CHR ''f'') c then byte c - byte CHR ''a'' + 10
      else if in_range (byte CHR ''A'') (byte CHR ''F'') c then byte c - byte CHR ''A'' + 10
      else 0)"

definition upperhex :: "nat \<Rightarrow> char" where
  "upperhex n = ''0123456789ABCDEF'' ! n"

text \<open>
  \<open>shouldEscape c encodeQueryComponent\<close>: everything but the unreserved characters
  (letters, digits, \<open>-\<close>, \<open>_\<close>, \<open>.\<close>, \<open>~\<close>) is escaped in a query component.
\<close>

definition shouldEscape :: "char \<Rightarrow> bool" where
  "shouldEscape c =
     (\<not> (in_range (byte CHR ''a'') (byte CHR ''z'') c
         \<or> in_range (byte CHR ''A'') (byte CHR ''Z'') c
         \<or> in_range (byte CHR ''0'') (byte CHR ''9'') c
         \<or> c = CHR ''-'' \<or> c = CHR ''_'' \<or> c = CHR ''.'' \<or> c = CHR ''~''))"

fun QueryEscape :: "string \<Rightarrow> string" where
  "QueryEscape [] = []"
| "QueryEscape (c # cs) =
     (if shouldEscape c
      then (if c = CHR '' '' then CHR ''+'' # QueryEscape cs
            else CHR ''%'' # upperhex (byte c div 16) # upperhex (byte c mod 16)
                   # QueryEscape cs)
      else c # QueryEscape cs)"

text \<open>
  \<open>unescape\<close>: a first pass checks that every \<open>%\<close> is followed by two hexadecimal
  digits (\<open>escapes_ok\<close>), a second pass converts. In a query component \<open>+\<close> is a space.
\<close>

fun escapes_ok :: "string \<Rightarrow> bool" where
  "escapes_ok [] = True"
| "escapes_ok (c # cs) =
     (if c = CHR ''%''
      then (case cs of
              a # b # rest \<Rightarrow> ishex a \<and> ishex b \<and> escapes_ok rest
            | _ \<Rightarrow> False)
      else escapes_ok cs)"

fun unescape_query :: "string \<Rightarrow> string" where
  "unescape_query [] = []"
| "unescape_query (c # cs) =
     (if c = CHR ''%''
      then (case cs of
              a # b # rest \<Rightarrow> char_of (unhex a * 16 + unhex b) # unescape_query rest
            | _ \<Rightarrow> [])
      else if c = CHR ''+'' then CHR '' '' # unescape_query cs
      else c # unescape_query cs)"

definition QueryUnescape :: "string \<Rightarrow> error + string" where
  "QueryUnescape s =
     (if escapes_ok s then Inr (unescape_query s) else Inl (UrlError ''invalid URL escape''))"

text \<open>
  \<open>url.Values\<close> is a map from keys to lists of values; it is kept as an association
  list with distinct keys, nil being the empty list. \<open>Encode\<close> sorts by key.
\<close>

type_synonym Values = "(string \<times> string list) list"

fun Values_Add :: "Values \<Rightarrow> string \<Rightarrow> string \<Rightarrow> Values" where
  "Values_Add [] key v = [(key, [v])]"
| "Values_Add ((k, vs) # m) key v =
     (if k = key then (k, vs @ [v]) # m else (k, vs) # Values_Add m key v)"

definition Values_Get :: "Values \<Rightarrow> string \<Rightarrow> string" where
  "Values_Get m key = (case map_of m key of Some (v # vs) \<Rightarrow> v | _ \<Rightarrow> [])"

fun join_amp :: "string list \<Rightarrow> string" where
  "join_amp [] = []"
| "join_amp [x] = x"
| "join_amp (x # y # ys) = x @ ''&'' @ join_amp (y # ys)"

definition Values_Encode :: "Values \<Rightarrow> string" where
  "Values_Encode m =
     join_amp (concat (map (\<lambda>(k, vs). map (\<lambda>v. QueryEscape k @ ''='' @ QueryEscape v) vs)
                           (sort_key fst m)))"

text \<open>
  \<open>parseQuery\<close>: the pairs are separated by \<open>&\<close>; a pair that holds a semicolon, an
  empty pair and a pair whose key or value does not unescape are skipped (\<open>URL.Query\<close>
  drops the error that \<open>ParseQuery\<close> reports for them).
\<close>

lemma strings_Cut_shorter:
  assumes "s \<noteq> []"
  shows "length (fst (snd (strings_Cut s sep))) < length s"
proof -
  have a: "length (dropWhile (\<lambda>c. c \<noteq> sep) s) \<le> length s"
    by (rule length_dropWhile_le)
  have b: "0 < length s"
    using assms by simp
  show ?thesis
  proof (cases "sep \<in> set s")
    case True
    have "length (drop 1 (dropWhile (\<lambda>c. c \<noteq> sep) s)) < length s"
      unfolding length_drop using a b by linarith
    with True show ?thesis by (simp add: strings_Cut_def)
  next
    case False
    with b show ?thesis by (simp add: strings_Cut_def)
  qed
qed

function parseQuery :: "Values \<Rightarrow> string \<Rightarrow> Values" where
  "parseQuery m query =
     (if query = [] then m
      else
        let key = fst (strings_Cut query CHR ''&'');
            query' = fst (snd (strings_Cut query CHR ''&''))
        in if CHR '';'' \<in> set key then parseQuery m query'
           else if key = [] then parseQuery m query'
           else
             (case QueryUnescape (fst (strings_Cut key CHR ''='')) of
                Inl e \<Rightarrow> parseQuery m query'
              | Inr k \<Rightarrow>
                  (case QueryUnescape (fst (snd (strings_Cut key CHR ''=''))) of
                     Inl e \<Rightarrow> parseQuery m query'
                   | Inr v \<Rightarrow> parseQuery (Values_Add m k v) query')))"
  by pat_completeness auto
termination
  by (relation "measure (\<lambda>(m, query). length query)") (auto simp: strings_Cut_shorter)

declare parseQuery.simps [simp del]

definition URL_Query :: "string \<Rightarrow> Values" where
  "URL_Query rawquery = parseQuery [] rawquery"

text \<open>
  \<open>getScheme\<close> scans for a leading \<open>scheme:\<close>; \<open>pre\<close> is the part of the input already
  scanned (the loop index is its length).
\<close>

definition isalpha :: "char \<Rightarrow> bool" where
  "isalpha c = (in_range (byte CHR ''a'') (byte CHR ''z'') c
              \<or> in_range (byte CHR ''A'') (byte CHR ''Z'') c)"

fun getScheme_loop :: "string \<Rightarrow> string \<Rightarrow> string \<Rightarrow> error + string \<times> string" where
  "getScheme_loop rawURL pre [] = Inr ([], rawURL)"
| "getScheme_loop rawURL pre (c # cs) =
     (if isalpha c then getScheme_loop rawURL (pre @ [c]) cs
      else if in_range (byte CHR ''0'') (byte CHR ''9'') c
              \<or> c = CHR ''+'' \<or> c = CHR ''-'' \<or> c = CHR ''.''
      then (if pre = [] then Inr ([], rawURL) else getScheme_loop rawURL (pre @ [c]) cs)
      else if c = CHR '':''
      then (if pre = [] then Inl (UrlError ''missing protocol scheme'') else Inr (pre, cs))
      else Inr ([], rawURL))"

definition getScheme :: "string \<Rightarrow> error + string \<times> string" where
  "getScheme rawURL = getScheme_loop rawURL [] rawURL"

definition stringContainsCTLByte :: "string \<Rightarrow> bool" where
  "stringContainsCTLByte s = list_ex (\<lambda>c. byte c < 0x20 \<or> byte c = 0x7f) s"

text \<open>
  \<open>parse rawURL false\<close>, reduced to what decides the error and the raw query. The result
  is the \<open>RawQuery\<close> field of the parsed URL. The one part that is not spelled out is
  \<open>parseAuthority\<close> (user, host and port syntax), reached only by an input that starts
  with a scheme and \<open>//\<close> or with exactly two slashes: \<open>bad_authority\<close> says which
  authority strings the library refuses.
\<close>

definition parse :: "(string \<Rightarrow> bool) \<Rightarrow> string \<Rightarrow> error + string" where
  "parse bad_authority rawURL =
     (if stringContainsCTLByte rawURL
      then Inl (UrlError ''net/url: invalid control character in URL'')
      else if rawURL = ''*'' then Inr []
      else
        (case getScheme rawURL of
           Inl e \<Rightarrow> Inl e
         | Inr (scheme, rest0) \<Rightarrow>
             let force = (suffix ''?'' rest0 \<and> count_list rest0 CHR ''?'' = 1);
                 rest = (if force then butlast rest0 else fst (strings_Cut rest0 CHR ''?''));
                 rawquery = (if force then [] else fst (snd (strings_Cut rest0 CHR ''?'')))
             in if \<not> strings_HasPrefix rest ''/'' \<and> scheme \<noteq> [] then Inr rawquery
                else if \<not> strings_HasPrefix rest ''/''
                        \<and> strings_Contains (fst (strings_Cut rest CHR ''/'')) '':''
                then Inl (UrlError ''first path segment in URL cannot contain colon'')
                else if (scheme \<noteq> [] \<or> \<not> strings_HasPrefix rest ''///'')
                        \<and> strings_HasPrefix rest ''//''
                then
                  let authority = takeWhile (\<lambda>c. c \<noteq> CHR ''/'') (drop 2 rest);
                      rest' = dropWhile (\<lambda>c. c \<noteq> CHR ''/'') (drop 2 rest)
                  in if bad_authority authority then Inl (UrlError ''invalid authority'')
                     else if escapes_ok rest' then Inr rawquery
                     else Inl (UrlError ''invalid URL escape'')
                else if escapes_ok rest then Inr rawquery
                else Inl (UrlError ''invalid URL escape'')))"

text \<open>\<open>url.Parse\<close>: the fragment is cut off first and must unescape as well.\<close>

definition url_Parse :: "(string \<Rightarrow> bool) \<Rightarrow> string \<Rightarrow> error + string" where
  "url_Parse bad_authority rawURL =
     (let u = fst (strings_Cut rawURL CHR ''#'');
          frag = fst (snd (strings_Cut rawURL CHR ''#''))
      in case parse bad_authority u of
           Inl e \<Rightarrow> Inl e
         | Inr rawquery \<Rightarrow>
             if frag = [] then Inr rawquery
             else if escapes_ok frag then Inr rawquery
             else Inl (UrlError ''invalid URL escape''))"

section \<open>Credentials (auth.go)\<close>

text \<open>
  \<^verbatim>\<open>type Keys struct { accessKeyID, secretAccessKey, sessionToken string }\<close>
  A \<open>*Keys\<close> is shared by reference. The objects of type \<open>Keys\<close> live in a store, a list
  indexed by address; a pointer is an address, or \<open>None\<close> for nil. Reading through nil
  panics.
\<close>

record Keys =
  accessKeyID :: string
  secretAccessKey :: string
  sessionToken :: string

type_synonym keys_store = "Keys list"

type_synonym keys_ptr = "nat option"

definition deref :: "keys_store \<Rightarrow> keys_ptr \<Rightarrow> error + Keys" where
  "deref h p =
     (case p of
        None \<Rightarrow> Inl (Panic ''invalid memory address or nil pointer dereference'')
      | Some a \<Rightarrow>
          if a < length h then Inr (h ! a)
          else Inl (Panic ''invalid memory address or nil pointer dereference''))"

definition AccessKeyID :: "keys_store \<Rightarrow> keys_ptr \<Rightarrow> error + string" where
  "AccessKeyID h k = (case deref h k of Inl e \<Rightarrow> Inl e | Inr v \<Rightarrow> Inr (accessKeyID v))"

definition SecretAccessKey :: "keys_store \<Rightarrow> keys_ptr \<Rightarrow> error + string" where
  "SecretAccessKey h k = (case deref h k of Inl e \<Rightarrow> Inl e | Inr v \<Rightarrow> Inr (secretAccessKey v))"

definition SessionToken :: "keys_store \<Rightarrow> keys_ptr \<Rightarrow> error + string" where
  "SessionToken h k = (case deref h k of Inl e \<Rightarrow> Inl e | Inr v \<Rightarrow> Inr (sessionToken v))"

text \<open>
  \<open>EnvKeys\<close> allocates a new \<open>Keys\<close> from the environment and returns its address together
  with the error (the pointer is non-nil also when the error is).
\<close>

definition EnvKeys :: "environ \<Rightarrow> keys_store \<Rightarrow> (keys_ptr \<times> error option) \<times> keys_store" where
  "EnvKeys env h =
     (let keys = \<lparr>accessKeyID = os_Getenv env ''AWS_ACCESS_KEY_ID'',
                  secretAccessKey = os_Getenv env ''AWS_SECRET_ACCESS_KEY'',
                  sessionToken = os_Getenv env ''AWS_SESSION_TOKEN''\<rparr>;
          err = (if accessKeyID keys = [] \<or> secretAccessKey keys = []
                 then Some (ErrorString
                   ''keys not set in environment: AWS_ACCESS_KEY_ID, AWS_SECRET_ACCESS_KEY'')
                 else None)
      in ((Some (length h), err), h @ [keys]))"

section \<open>Endpoints: the implementations of \<open>S3ConfigSource\<close>\<close>

text \<open>
  The interface \<open>S3ConfigSource\<close> has two implementations, \<open>*S3\<close> (a domain and the embedded
  \<open>*Keys\<close>) and \<open>*S3Accelerated\<close> (a region and the embedded \<open>*Keys\<close>). Of the variants of
  \<open>S3Accelerated\<close> among the sources, the one with the \<open>region\<close> field is modelled; the
  others return the constant \<open>"us-west-2"\<close>, which is what \<open>NewAcceleratedS3\<close> stores.
\<close>

datatype S3ConfigSource =
    S3 string keys_ptr
  | S3Accelerated string keys_ptr

definition DefaultDomain :: string where
  "DefaultDomain = ''s3.amazonaws.com''"

definition defaultRegion :: string where
  "defaultRegion = ''us-west-2''"

definition New :: "string \<Rightarrow> keys_ptr \<Rightarrow> S3ConfigSource" where
  "New domain keys = S3 (if domain = [] then DefaultDomain else domain) keys"

definition NewAcceleratedS3 :: "keys_ptr \<Rightarrow> S3ConfigSource" where
  "NewAcceleratedS3 k = S3Accelerated defaultRegion k"

definition NewAcceleratedS3InRegion :: "keys_ptr \<Rightarrow> string \<Rightarrow> S3ConfigSource" where
  "NewAcceleratedS3InRegion k region = S3Accelerated region k"

fun Domain_of :: "S3ConfigSource \<Rightarrow> string" where
  "Domain_of (S3 domain k) = domain"
| "Domain_of (S3Accelerated region k) = ''s3-accelerate.amazonaws.com''"

definition DomainForBucket :: "S3ConfigSource \<Rightarrow> string \<Rightarrow> string" where
  "DomainForBucket s bucket = bucket @ ''.'' @ Domain_of s"

fun Keys_of :: "S3ConfigSource \<Rightarrow> keys_ptr" where
  "Keys_of (S3 domain k) = k"
| "Keys_of (S3Accelerated region k) = k"

text \<open>
  \<^verbatim>\<open>func (s *S3) Region() string\<close> reads \<open>AWS_REGION\<close>, then switches on the domain;
  \<^verbatim>\<open>func (a *S3Accelerated) Region() string { return a.region }\<close>.
\<close>

definition Region :: "environ \<Rightarrow> S3ConfigSource \<Rightarrow> error + string" where
  "Region env s =
     (case s of
        S3Accelerated r k \<Rightarrow> Inr r
      | S3 d k \<Rightarrow>
          let region = os_Getenv env ''AWS_REGION'' in
          if Domain_of s = ''s3.amazonaws.com'' \<or> Domain_of s = ''s3-external-1.amazonaws.com''
          then Inr ''us-east-1''
          else if Domain_of s = ''s3-accelerate.amazonaws.com''
          then (if region = [] then Inl (Panic ''can't find endpoint region'') else Inr region)
          else
            let regions = FindStringSubmatch regionMatcher (Domain_of s) in
            if length regions < 2
            then (if region = [] then Inl (Panic ''can't find endpoint region'') else Inr region)
            else Inr (regions ! 1))"

section \<open>Requests, configuration and buckets (bucket.go)\<close>

text \<open>
  Of \<open>url.URL\<close> and \<open>http.Request\<close> the fields this package sets or reads are kept.
  A header set is a map from field names to value lists; a request's \<open>Header\<close> is
  \<open>None\<close> when the Go map is nil. \<open>Header.Set\<close> replaces the values of a field; the
  names it is called with here are in canonical form already.
\<close>

record URL =
  Scheme :: string
  Host :: string
  Path :: string
  RawQuery :: string

type_synonym http_Header = "string \<rightharpoonup> string list"

record Request =
  Method :: string
  URL :: "URL option"
  Header :: "http_Header option"
  Body :: "string option"
  ContentLength :: int

record Response =
  StatusCode :: int
  RespBody :: string

definition header_Set :: "http_Header \<Rightarrow> string \<Rightarrow> string \<Rightarrow> http_Header" where
  "header_Set h key v = h(key \<mapsto> [v])"

text \<open>
  \<^verbatim>\<open>type Config struct { Client; Concurrency int; PartSize int64; NTry int; Md5Check bool;
  Scheme string; PathStyle bool }\<close>
  The integers are 64-bit words read as signed. The HTTP client is its \<open>Do\<close>: the
  response (or transport error) to a request, which may depend on the requests sent
  before. \<open>Scheme'\<close> is the field \<open>Config.Scheme\<close>.
\<close>

record Config =
  Client :: "Request list \<Rightarrow> Request \<Rightarrow> error + Response"
  Concurrency :: "64 word"
  PartSize :: "64 word"
  NTry :: "64 word"
  Md5Check :: bool
  Scheme' :: string
  PathStyle :: bool

text \<open>
  \<^verbatim>\<open>type Bucket struct { S3 S3ConfigSource; Name string; Config *Config }\<close>
  (\<open>S3'\<close> is the field \<open>S3\<close>). The receiver, its \<open>S3\<close> and its \<open>Config\<close> are taken to be
  non-nil, as the source requires ("c must not be nil").
\<close>

record Bucket =
  S3' :: S3ConfigSource
  Name :: string
  Config :: Config

definition NewBucket :: "S3ConfigSource \<Rightarrow> string \<Rightarrow> Config \<Rightarrow> Bucket \<times> error option" where
  "NewBucket s3 name config = (\<lparr>S3' = s3, Name = name, Config = config\<rparr>, None)"

text \<open>
  What lies outside the package: the environment variables, the authority syntax
  check of \<open>net/url\<close>, and the clock (\<open>time.Now\<close>, which may advance with every request
  sent). \<open>auth_headers\<close> belongs to the signer below.
\<close>

record platform =
  env_vars :: environ
  bad_authority :: "string \<Rightarrow> bool"
  time_Now :: "Request list \<Rightarrow> nat"
  auth_headers :: "Keys \<Rightarrow> string \<Rightarrow> nat \<Rightarrow> Request \<Rightarrow> (string \<times> string) list"

text \<open>
  The state the operations run in: the store of \<open>Keys\<close> objects and the requests
  handed to the HTTP client so far, oldest first.
\<close>

record world =
  keys_heap :: keys_store
  sent :: "Request list"

definition versionParam :: string where
  "versionParam = ''versionId''"

text \<open>
  \<^verbatim>\<open>func (b *Bucket) url(bPath string) (*url.URL, error)\<close>
  \<open>fmt.Sprintf("/%s/%s", b.Name, bPath)\<close> and \<open>fmt.Sprintf("/%s", bPath)\<close> are
  concatenations.
\<close>

definition url :: "platform \<Rightarrow> Bucket \<Rightarrow> string \<Rightarrow> error + URL" where
  "url P b bPath =
     (case url_Parse (bad_authority P) bPath of
        Inl err \<Rightarrow> Inl err
      | Inr rawquery \<Rightarrow>
          let v = Values_Get (URL_Query rawquery) versionParam;
              vals = (if v \<noteq> [] then Values_Add [] versionParam v else []);
              bPath' = (if v \<noteq> [] then hd (strings_Split bPath CHR ''?'') else bPath)
          in if strings_Contains (Name b) ''.'' \<or> PathStyle (Config b)
             then Inr \<lparr>Scheme = Scheme' (Config b),
                       Host = Domain_of (S3' b),
                       Path = path_Clean (''/'' @ Name b @ ''/'' @ bPath'),
                       RawQuery = Values_Encode vals\<rparr>
             else Inr \<lparr>Scheme = Scheme' (Config b),
                       Host = path_Clean (DomainForBucket (S3' b) (Name b)),
                       Path = path_Clean (''/'' @ bPath'),
                       RawQuery = Values_Encode vals\<rparr>)"

text \<open>
  Modelled from the spec: \<open>signer.sign\<close>, whose file is not among the sources. The spec
  (4.1) has the signer "produce a deterministic signature and attach it plus a
  timestamp header to the request", "fail (signal an error) if region cannot be
  determined and no override is available", with the side effect that it "mutates only
  the request's header set". So: the region is asked of the endpoint (\<open>Region\<close>, which
  panics when there is none), the credentials are read through the shared \<open>*Keys\<close>, and
  the header fields computed from credentials, region, time and request
  (\<open>auth_headers\<close>: the signature and the timestamp) are set on the request's header.
\<close>

record signer =
  Time :: nat
  Request :: Request
  S3Config :: S3ConfigSource

definition signer_sign :: "platform \<Rightarrow> keys_store \<Rightarrow> signer \<Rightarrow> error + Request" where
  "signer_sign P h s =
     (case Region (env_vars P) (S3Config s) of
        Inl e \<Rightarrow> Inl e
      | Inr region \<Rightarrow>
          (case deref h (Keys_of (S3Config s)) of
             Inl e \<Rightarrow> Inl e
           | Inr k \<Rightarrow>
               Inr ((Request s)\<lparr>Header :=
                 Some (foldl (\<lambda>hs (name, v). header_Set hs name v)
                         (case Header (Request s) of None \<Rightarrow> Map.empty | Some hs \<Rightarrow> hs)
                         (auth_headers P k region (Time s) (Request s)))\<rparr>)))"

text \<open>
  \<^verbatim>\<open>func (b *Bucket) Sign(req *http.Request)\<close>: a nil header becomes an empty one,
  \<open>User-Agent\<close> is set, and the request is handed to the signer with the current time.
  The request is mutated in place in Go; here the signed request is returned.
\<close>

definition Sign :: "platform \<Rightarrow> world \<Rightarrow> Bucket \<Rightarrow> Request \<Rightarrow> error + Request" where
  "Sign P w b req =
     (let req1 = (if Header req = None then req\<lparr>Header := Some Map.empty\<rparr> else req);
          req2 = req1\<lparr>Header :=
                   (case Header req1 of
                      None \<Rightarrow> None
                    | Some hs \<Rightarrow> Some (header_Set hs ''User-Agent'' ''S3Gof3r''))\<rparr>
      in signer_sign P (keys_heap w)
           \<lparr>Time = time_Now P (sent w), Request = req2, S3Config = S3' b\<rparr>)"

text \<open>\<open>Bucket.Do\<close> proxies to the client; the request joins the log of sent requests.\<close>

definition Do :: "Bucket \<Rightarrow> Request \<Rightarrow> world \<Rightarrow> (error + Response) \<times> world" where
  "Do b req w = (Client (Config b) (sent w) req, w\<lparr>sent := sent w @ [req]\<rparr>)"

text \<open>
  \<^verbatim>\<open>func (b *Bucket) delete(path string) error\<close>: build the URL, sign a DELETE request,
  send it, and expect status 204. (The deferred close of the response body has no part
  in the result.)
\<close>

definition delete :: "platform \<Rightarrow> Bucket \<Rightarrow> string \<Rightarrow> world \<Rightarrow> (error + unit) \<times> world" where
  "delete P b path w =
     (case url P b path of
        Inl err \<Rightarrow> (Inl err, w)
      | Inr u \<Rightarrow>
          (case Sign P w b \<lparr>Method = ''DELETE'', URL = Some u, Header = None,
                            Body = None, ContentLength = 0\<rparr> of
             Inl e \<Rightarrow> (Inl e, w)
           | Inr r \<Rightarrow>
               (case Do b r w of
                  (Inl err, w') \<Rightarrow> (Inl err, w')
                | (Inr resp, w') \<Rightarrow>
                    if StatusCode resp \<noteq> 204 then (Inl (RespError (StatusCode resp)), w')
                    else (Inr (), w'))))"

text \<open>
  \<^verbatim>\<open>func (b *Bucket) Delete(path string) error\<close>: delete the object, then, when
  \<open>Md5Check\<close> is on, the md5 file at \<open>fmt.Sprintf("/.md5/%s.md5", path)\<close>. (The log line
  at the end goes to the package logger and is left out.)
\<close>

definition Delete :: "platform \<Rightarrow> Bucket \<Rightarrow> string \<Rightarrow> world \<Rightarrow> (error + unit) \<times> world" where
  "Delete P b path w =
     (case delete P b path w of
        (Inl err, w1) \<Rightarrow> (Inl err, w1)
      | (Inr _, w1) \<Rightarrow>
          if Md5Check (Config b)
          then (case delete P b (''/.md5/'' @ path @ ''.md5'') w1 of
                  (Inl err, w2) \<Rightarrow> (Inl err, w2)
                | (Inr _, w2) \<Rightarrow> (Inr (), w2))
          else (Inr (), w1))"

text \<open>
  \<^verbatim>\<open>func (b *Bucket) DeleteMultiple(quiet bool, keys ...string) (DeleteResult, error)\<close>:
  when \<open>Md5Check\<close> is on, \<open>fmt.Sprintf("/.md5/%s.md", key)\<close> of every key is appended
  to the keys; the list goes to \<open>deleteMultiple\<close>, which is defined outside the sources
  and is a parameter here.
\<close>

definition DeleteMultiple ::
  "(Bucket \<Rightarrow> bool \<Rightarrow> string list \<Rightarrow> 'r) \<Rightarrow> Bucket \<Rightarrow> bool \<Rightarrow> string list \<Rightarrow> 'r" where
  "DeleteMultiple deleteMultiple b quiet keys =
     (let md5Keys = map (\<lambda>key. ''/.md5/'' @ key @ ''.md'') keys;
          keys' = (if Md5Check (Config b) then keys @ md5Keys else keys)
      in deleteMultiple b quiet keys')"

text \<open>
  \<^verbatim>\<open>func (b *Bucket) GetReader(path string) (r io.ReadCloser, h http.Header, err error)\<close>
  and \<^verbatim>\<open>func (b *Bucket) PutWriter(path string, h http.Header) (w io.WriteCloser, err error)\<close>.
  \<open>newGetter\<close> and \<open>newPutter\<close> are defined outside the sources and are parameters; an
  error result \<open>Inl err\<close> stands for the nil reader (writer), nil headers and \<open>err\<close>.
\<close>

definition GetReader ::
  "(URL \<Rightarrow> Bucket \<Rightarrow> world \<Rightarrow> (error + 'r) \<times> world) \<Rightarrow> platform \<Rightarrow> Bucket \<Rightarrow> string
     \<Rightarrow> world \<Rightarrow> (error + 'r) \<times> world" where
  "GetReader newGetter P b path w =
     (if path = [] then (Inl (ErrorString ''empty path requested''), w)
      else (case url P b path of
              Inl err \<Rightarrow> (Inl err, w)
            | Inr u \<Rightarrow> newGetter u b w))"

definition PutWriter ::
  "(URL \<Rightarrow> http_Header option \<Rightarrow> Bucket \<Rightarrow> world \<Rightarrow> (error + 'w) \<times> world) \<Rightarrow> platform
     \<Rightarrow> Bucket \<Rightarrow> string \<Rightarrow> http_Header option \<Rightarrow> world \<Rightarrow> (error + 'w) \<times> world" where
  "PutWriter newPutter P b path h w =
     (case url P b path of
        Inl err \<Rightarrow> (Inl err, w)
      | Inr u \<Rightarrow> newPutter u h b w)"

text \<open>
  Modelled from the spec: \<open>newGetter\<close> and \<open>newPutter\<close>, whose files are not among the
  sources. The spec (7) has a "Configuration error -- invalid Transfer Configuration
  (non-positive part size, zero concurrency); rejected at stream-creation time, never
  during transfer". So stream creation first rejects such a configuration, and only
  then starts the transfer proper (\<open>start\<close>, of which nothing more is known).
\<close>

definition config_invalid :: "Config \<Rightarrow> bool" where
  "config_invalid c = (PartSize c \<le>s 0 \<or> Concurrency c = 0)"

definition newGetter ::
  "(URL \<Rightarrow> Bucket \<Rightarrow> world \<Rightarrow> (error + 'r) \<times> world) \<Rightarrow> URL \<Rightarrow> Bucket \<Rightarrow> world
     \<Rightarrow> (error + 'r) \<times> world" where
  "newGetter start u b w =
     (if config_invalid (Config b) then (Inl ConfigError, w) else start u b w)"

definition newPutter ::
  "(URL \<Rightarrow> http_Header option \<Rightarrow> Bucket \<Rightarrow> world \<Rightarrow> (error + 'w) \<times> world) \<Rightarrow> URL
     \<Rightarrow> http_Header option \<Rightarrow> Bucket \<Rightarrow> world \<Rightarrow> (error + 'w) \<times> world" where
  "newPutter start u h b w =
     (if config_invalid (Config b) then (Inl ConfigError, w) else start u h b w)"

section \<open>Default configurations\<close>

text \<open>
  \<open>DefaultConfig\<close> and the configuration \<open>BucketWithDefaultConfig\<close> builds. The constant
  \<open>mb\<close> and the client made by \<open>ClientWithTimeout(defaultClientTimeout)\<close> are declared
  outside the sources and are parameters; \<open>PathStyle\<close> is not set and so is false.
\<close>

definition DefaultConfig ::
  "64 word \<Rightarrow> (Request list \<Rightarrow> Request \<Rightarrow> error + Response) \<Rightarrow> Config" where
  "DefaultConfig mb client =
     \<lparr>Client = client, Concurrency = 10, PartSize = 20 * mb, NTry = 10,
      Md5Check = True, Scheme' = ''https'', PathStyle = False\<rparr>"

definition S3_Bucket ::
  "64 word \<Rightarrow> (Request list \<Rightarrow> Request \<Rightarrow> error + Response) \<Rightarrow> S3ConfigSource \<Rightarrow> string
     \<Rightarrow> Bucket" where
  "S3_Bucket mb client s name = fst (NewBucket s name (DefaultConfig mb client))"

definition BucketWithDefaultConfig ::
  "64 word \<Rightarrow> (Request list \<Rightarrow> Request \<Rightarrow> error + Response) \<Rightarrow> S3ConfigSource \<Rightarrow> string
     \<Rightarrow> Bucket" where
  "BucketWithDefaultConfig mb client a name =
     (let config = \<lparr>Client = client, Concurrency = 10, PartSize = 20 * mb, NTry = 10,
                    Md5Check = True, Scheme' = ''https'', PathStyle = False\<rparr>
      in fst (NewBucket a name config))"

section \<open>A concrete setting\<close>

text \<open>
  A client that answers every request with status 204, a platform with no environment
  variables set, a bucket on the default endpoint with the default configuration, and a
  store that holds one \<open>Keys\<close> object at address 0.
\<close>

definition client_204 :: "Request list \<Rightarrow> Request \<Rightarrow> error + Response" where
  "client_204 hist req = Inr \<lparr>StatusCode = 204, RespBody = []\<rparr>"

definition example_platform :: platform where
  "example_platform =
     \<lparr>env_vars = Map.empty, bad_authority = (\<lambda>a. False), time_Now = length,
      auth_headers = (\<lambda>k region t req.
        [(''X-Amz-Date'', ''now''), (''Authorization'', accessKeyID k @ ''/'' @ region)])\<rparr>"

definition example_bucket :: Bucket where
  "example_bucket =
     \<lparr>S3' = S3 ''s3.amazonaws.com'' (Some 0), Name = ''bkt'',
      Config = DefaultConfig 1048576 client_204\<rparr>"

definition example_world :: world where
  "example_world =
     \<lparr>keys_heap = [\<lparr>accessKeyID = ''AK'', secretAccessKey = ''SK'', sessionToken = []\<rparr>],
      sent = []\<rparr>"

lemmas example_defs =
  example_platform_def example_bucket_def example_world_def DefaultConfig_def client_204_def

lemmas url_eval =
  url_def url_Parse_def parse_def strings_Cut_def getScheme_def stringContainsCTLByte_def
  isalpha_def in_range_def byte_def strings_HasPrefix_def URL_Query_def parseQuery.simps
  Values_Get_def Values_Encode_def QueryUnescape_def path_Clean_def DomainForBucket_def
  versionParam_def Let_def

lemmas delete_eval =
  delete_def Sign_def signer_sign_def Do_def Region_def deref_def header_Set_def

lemma delete_example:
  "delete example_platform example_bucket ''a'' example_world =
     (Inr (), snd (delete example_platform example_bucket ''a'' example_world))"
  by (simp add: example_defs url_eval delete_eval)

lemma Delete_example_requests:
  "map (\<lambda>r. (Method r, map_option Host (URL r), map_option Path (URL r)))
       (sent (snd (Delete example_platform example_bucket ''a'' example_world)))
   = [(''DELETE'', Some ''bkt.s3.amazonaws.com'', Some ''/a''),
      (''DELETE'', Some ''bkt.s3.amazonaws.com'', Some ''/.md5/a.md5'')]"
  by (simp add: Delete_def example_defs url_eval delete_eval)

section \<open>Region determination\<close>

lemma Region_inferred_example:
  "Region env (S3 ''s3-eu-west-1.amazonaws.com'' k) = Inr ''eu-west-1''"
proof -
  have "FindStringSubmatch regionMatcher ''s3-eu-west-1.amazonaws.com''
        = [''s3-eu-west-1.amazonaws.com'', ''eu-west-1'', []]"
    by code_simp
  then show ?thesis by (simp add: Region_def)
qed

lemma Region_us_east_1:
  "Region env (S3 ''s3.amazonaws.com'' k) = Inr ''us-east-1''"
  by (simp add: Region_def)

text \<open>
  Claim C1. For an endpoint \<open>S3 d k\<close> whose domain is none of the two us-east-1 domains,
  is not the accelerate domain and is not matched by \<open>regionMatcher\<close>, the region is the
  value of \<open>AWS_REGION\<close>; when that is empty (or unset) \<open>Region\<close> panics with "can't find
  endpoint region". For a bucket on such an endpoint and no \<open>AWS_REGION\<close>, \<open>Sign\<close> then
  fails with that panic for every request (the signer, as the spec describes it, asks the
  endpoint for the region), and \<open>delete\<close> and \<open>Delete\<close> end in an error with the state as
  it was before: no request, signed or unsigned, has been handed to the client.
\<close>

theorem Region_unrecognized_domain:
  assumes "d \<noteq> ''s3.amazonaws.com''"
    and "d \<noteq> ''s3-external-1.amazonaws.com''"
    and "d \<noteq> ''s3-accelerate.amazonaws.com''"
    and "FindStringSubmatch regionMatcher d = []"
  shows "Region env (S3 d k) =
           (if os_Getenv env ''AWS_REGION'' = []
            then Inl (Panic ''can't find endpoint region'')
            else Inr (os_Getenv env ''AWS_REGION''))
       \<and> (env_vars P = env \<and> S3' b = S3 d k \<and> os_Getenv env ''AWS_REGION'' = [] \<longrightarrow>
            Sign P w b req = Inl (Panic ''can't find endpoint region'')
            \<and> (\<exists>e. delete P b path w = (Inl e, w))
            \<and> (\<exists>e. Delete P b path w = (Inl e, w)))"
proof -
  have region: "Region env (S3 d k) =
           (if os_Getenv env ''AWS_REGION'' = []
            then Inl (Panic ''can't find endpoint region'')
            else Inr (os_Getenv env ''AWS_REGION''))"
    using assms by (simp add: Region_def)
  have "Sign P w b req = Inl (Panic ''can't find endpoint region'')
        \<and> (\<exists>e. delete P b path w = (Inl e, w))
        \<and> (\<exists>e. Delete P b path w = (Inl e, w))"
    if "env_vars P = env" and "S3' b = S3 d k" and "os_Getenv env ''AWS_REGION'' = []"
  proof -
    from region that
    have panic: "Region (env_vars P) (S3' b) = Inl (Panic ''can't find endpoint region'')"
      by simp
    then have sign: "Sign P w b r = Inl (Panic ''can't find endpoint region'')" for r
      by (simp add: Sign_def signer_sign_def Let_def)
    then obtain e where del: "delete P b path w = (Inl e, w)"
      by (cases "url P b path") (simp_all add: delete_def)
    then have "Delete P b path w = (Inl e, w)"
      by (simp add: Delete_def)
    with sign del show ?thesis
      by blast
  qed
  with region show ?thesis
    by blast
qed

theorem Region_unrecognized_domain_witness:
  "Region [''AWS_REGION'' \<mapsto> ''eu-central-1''] (S3 ''storage.example.com'' (Some 0))
     = Inr ''eu-central-1''
   \<and> Region Map.empty (S3 ''storage.example.com'' (Some 0))
     = Inl (Panic ''can't find endpoint region'')
   \<and> env_vars example_platform = Map.empty
   \<and> Sign example_platform example_world
        (example_bucket\<lparr>S3' := S3 ''storage.example.com'' (Some 0)\<rparr>)
        \<lparr>Method = ''GET'', URL = None, Header = None, Body = None, ContentLength = 0\<rparr>
     = Inl (Panic ''can't find endpoint region'')
   \<and> delete example_platform (example_bucket\<lparr>S3' := S3 ''storage.example.com'' (Some 0)\<rparr>)
        ''a'' example_world
     = (Inl (Panic ''can't find endpoint region''), example_world)
   \<and> Delete example_platform (example_bucket\<lparr>S3' := S3 ''storage.example.com'' (Some 0)\<rparr>)
        ''a'' example_world
     = (Inl (Panic ''can't find endpoint region''), example_world)
   \<and> sent example_world = []"
proof -
  let ?b = "example_bucket\<lparr>S3' := S3 ''storage.example.com'' (Some 0)\<rparr>"
  let ?r = "\<lparr>Method = ''GET'', URL = None, Header = None, Body = None, ContentLength = 0\<rparr>"
  have nomatch: "FindStringSubmatch regionMatcher ''storage.example.com'' = []"
    by code_simp
  have d: "''storage.example.com'' \<noteq> ''s3.amazonaws.com''"
    "''storage.example.com'' \<noteq> ''s3-external-1.amazonaws.com''"
    "''storage.example.com'' \<noteq> ''s3-accelerate.amazonaws.com''"
    by simp_all
  have env: "env_vars example_platform = Map.empty"
    by (simp add: example_platform_def)
  have a: "Region [''AWS_REGION'' \<mapsto> ''eu-central-1''] (S3 ''storage.example.com'' (Some 0))
           = Inr ''eu-central-1''"
    using Region_unrecognized_domain
      [OF d nomatch, where env = "[''AWS_REGION'' \<mapsto> ''eu-central-1'']" and k = "Some 0"]
    by (simp add: os_Getenv_def)
  note unset = Region_unrecognized_domain
      [OF d nomatch, where env = Map.empty and k = "Some 0" and P = example_platform
        and b = ?b and w = example_world and req = ?r and path = "''a''"]
  from unset have b: "Region Map.empty (S3 ''storage.example.com'' (Some 0))
           = Inl (Panic ''can't find endpoint region'')"
    by (simp add: os_Getenv_def)
  from unset env
  have s: "Sign example_platform example_world ?b r
             = Inl (Panic ''can't find endpoint region'')" for r
    by (simp add: os_Getenv_def Sign_def signer_sign_def Let_def)
  have u: "\<exists>u. url example_platform ?b ''a'' = Inr u"
    by (simp add: example_defs url_eval)
  with s have dl': "delete example_platform ?b ''a'' example_world
             = (Inl (Panic ''can't find endpoint region''), example_world)"
    by (auto simp: delete_def)
  then have dl2': "Delete example_platform ?b ''a'' example_world
             = (Inl (Panic ''can't find endpoint region''), example_world)"
    by (simp add: Delete_def)
  have "sent example_world = []"
    by (simp add: example_world_def)
  with a b env s dl' dl2' show ?thesis
    by simp
qed

section \<open>The md5 file of an object\<close>

text \<open>
  Claim C2. With \<open>Md5Check\<close> on, \<open>Delete k\<close>, once the object is deleted, goes on to
  delete the key \<open>"/.md5/" + k + ".md5"\<close>, while \<open>DeleteMultiple\<close> of the one key \<open>k\<close>
  hands \<open>deleteMultiple\<close> the keys \<open>k\<close> and \<open>"/.md5/" + k + ".md"\<close>; the two md5 keys differ
  for every \<open>k\<close>.
\<close>

theorem Delete_DeleteMultiple_md5_keys:
  assumes "Md5Check (Config b)"
  shows "(\<forall>w w1. delete P b k w = (Inr (), w1)
            \<longrightarrow> Delete P b k w = delete P b (''/.md5/'' @ k @ ''.md5'') w1)
       \<and> DeleteMultiple dm b quiet [k] = dm b quiet [k, ''/.md5/'' @ k @ ''.md'']
       \<and> ''/.md5/'' @ k @ ''.md5'' \<noteq> ''/.md5/'' @ k @ ''.md''"
  using assms by (auto simp: Delete_def DeleteMultiple_def split: prod.splits sum.splits)

theorem Delete_DeleteMultiple_md5_keys_witness:
  "Md5Check (Config example_bucket)
   \<and> Delete example_platform example_bucket ''a'' example_world
       = delete example_platform example_bucket ''/.md5/a.md5''
           (snd (delete example_platform example_bucket ''a'' example_world))
   \<and> DeleteMultiple (\<lambda>b quiet keys. keys) example_bucket False [''a'']
       = [''a'', ''/.md5/a.md'']"
proof -
  have on: "Md5Check (Config example_bucket)"
    by (simp add: example_defs)
  note inst = Delete_DeleteMultiple_md5_keys
    [OF on, of example_platform "''a''" "\<lambda>b quiet keys. keys" False]
  from inst have "Delete example_platform example_bucket ''a'' example_world
       = delete example_platform example_bucket (''/.md5/'' @ ''a'' @ ''.md5'')
           (snd (delete example_platform example_bucket ''a'' example_world))"
    using delete_example by blast
  moreover from inst
  have "DeleteMultiple (\<lambda>b quiet keys. keys) example_bucket False [''a'']
          = [''a'', ''/.md5/'' @ ''a'' @ ''.md'']"
    by blast
  ultimately show ?thesis using on by simp
qed

text \<open>
  Claim C4. The md5 file of the object \<open>k\<close> is at \<open>"/.md5/" + k + ".md5"\<close>: so says the
  comment on \<open>Config.Md5Check\<close>, and so does \<open>Delete\<close>. \<open>DeleteMultiple\<close> does not: for
  the key \<open>a\<close> it asks for the deletion of \<open>/.md5/a.md\<close>.
\<close>

theorem DeleteMultiple_md5_key_example:
  "DeleteMultiple (\<lambda>b quiet keys. keys) example_bucket True [''a''] = [''a'', ''/.md5/a.md'']
   \<and> ''/.md5/a.md'' \<noteq> ''/.md5/'' @ ''a'' @ ''.md5''"
  by (simp add: DeleteMultiple_def example_defs)

section \<open>Stream creation\<close>

lemma url_Parse_empty: "url_Parse bad [] = Inr []"
  by (simp add: url_eval)

lemma url_empty_path:
  "url P b [] =
     (if strings_Contains (Name b) ''.'' \<or> PathStyle (Config b)
      then Inr \<lparr>Scheme = Scheme' (Config b), Host = Domain_of (S3' b),
                Path = path_Clean (''/'' @ Name b @ ''/''), RawQuery = []\<rparr>
      else Inr \<lparr>Scheme = Scheme' (Config b),
                Host = path_Clean (DomainForBucket (S3' b) (Name b)),
                Path = ''/'', RawQuery = []\<rparr>)"
  by (simp add: url_def url_Parse_empty URL_Query_def parseQuery.simps Values_Get_def
      Values_Encode_def versionParam_def path_Clean_def)

text \<open>
  Claim C8. \<open>GetReader\<close> answers the empty path with the error "empty path requested",
  whatever \<open>newGetter\<close> (here \<open>ng\<close>) and the platform are and with the world as it was (no URL is
  built, nothing is sent). \<open>PutWriter\<close> has no such check: for the empty path it builds
  the URL of the bucket itself and hands it to \<open>newPutter\<close> (here \<open>np\<close>).
\<close>

theorem GetReader_rejects_empty_path:
  "GetReader ng P b [] w = (Inl (ErrorString ''empty path requested''), w)
   \<and> (\<exists>u. url P b [] = Inr u \<and> RawQuery u = []
          \<and> PutWriter np P b [] h w = np u h b w)"
  by (simp add: GetReader_def PutWriter_def url_empty_path)

text \<open>
  Claim C3. With \<open>newGetter\<close> and \<open>newPutter\<close> as the spec describes them, a configuration
  with a non-positive part size or with zero concurrency makes \<open>GetReader\<close> and
  \<open>PutWriter\<close> return an error and leave the world as it was: the transfer proper
  (\<open>start\<close>) is not entered, so the outcome does not depend on it.
\<close>

theorem invalid_config_rejected_at_creation:
  assumes "config_invalid (Config b)"
  shows "(\<exists>e. GetReader (newGetter start) P b path w = (Inl e, w))
       \<and> (\<exists>e. PutWriter (newPutter start') P b path h w = (Inl e, w))
       \<and> GetReader (newGetter start) P b path w = GetReader (newGetter other) P b path w
       \<and> PutWriter (newPutter start') P b path h w
           = PutWriter (newPutter other') P b path h w"
  using assms
  by (auto simp: GetReader_def PutWriter_def newGetter_def newPutter_def split: sum.splits)

theorem invalid_config_rejected_at_creation_witness:
  "config_invalid (Config (example_bucket\<lparr>Config := (Config example_bucket)\<lparr>PartSize := 0\<rparr>\<rparr>))
   \<and> GetReader (newGetter (\<lambda>u b w. (Inr (), w))) example_platform
        (example_bucket\<lparr>Config := (Config example_bucket)\<lparr>PartSize := 0\<rparr>\<rparr>) ''a'' example_world
      = (Inl ConfigError, example_world)"
proof -
  let ?b = "example_bucket\<lparr>Config := (Config example_bucket)\<lparr>PartSize := 0\<rparr>\<rparr>"
  have bad: "config_invalid (Config ?b)"
    by (simp add: config_invalid_def)
  from invalid_config_rejected_at_creation [OF bad]
  obtain e where e: "GetReader (newGetter (\<lambda>u b w. (Inr (), w))) example_platform ?b ''a''
                       example_world = (Inl e, example_world)"
    by blast
  have "fst (GetReader (newGetter (\<lambda>u b w. (Inr (), w))) example_platform ?b ''a''
               example_world) = Inl ConfigError"
    by (simp add: GetReader_def newGetter_def config_invalid_def example_defs url_eval)
  with e have "e = ConfigError" by simp
  with e bad show ?thesis by simp
qed

section \<open>The default configurations\<close>

text \<open>The spec's constraints on a transfer configuration: "concurrency \<open>\<ge>\<close> 1, part size > 0,
  max attempts \<open>\<ge>\<close> 1".\<close>

definition satisfies_constraints :: "Config \<Rightarrow> bool" where
  "satisfies_constraints c = (1 \<le>s Concurrency c \<and> 0 <s PartSize c \<and> 1 \<le>s NTry c)"

lemma twenty_mb_positive:
  fixes mb :: "64 word"
  assumes "0 <s mb" and "mb \<le>s 461168601842738790"
  shows "0 <s 20 * mb"
proof -
  have lo: "0 < sint mb"
    using assms(1) by (simp add: word_sless_alt)
  have hi: "sint mb \<le> 461168601842738790"
    using assms(2) by (simp add: word_sle_eq)
  have "sint (20 * mb) = signed_take_bit 63 (sint (20 :: 64 word) * sint mb)"
    by (simp add: sint_word_ariths)
  also have "sint (20 :: 64 word) = 20"
    by simp
  also have "signed_take_bit 63 (20 * sint mb) = 20 * sint mb"
    using lo hi by (intro signed_take_bit_int_eq_self) simp_all
  finally have "sint (20 * mb) = 20 * sint mb" .
  with lo show ?thesis
    by (simp add: word_sless_alt)
qed

text \<open>
  Claim C5. The configurations the library builds by default (\<open>DefaultConfig\<close>, used by
  \<open>(*S3).Bucket\<close>, and the one of \<open>BucketWithDefaultConfig\<close>) have concurrency 10, part
  size \<open>20 * mb\<close> and 10 attempts, and satisfy the constraints, for a constant \<open>mb\<close> that
  is positive and small enough for \<open>20 * mb\<close> to fit 64 bits (one megabyte, be it
  \<open>2\<^sup>2\<^sup>0\<close> or \<open>10\<^sup>6\<close> bytes, is).
\<close>

theorem default_configs_satisfy_constraints:
  assumes "0 <s mb" and "mb \<le>s 461168601842738790"
  shows "satisfies_constraints (DefaultConfig mb client)
       \<and> satisfies_constraints (Config (S3_Bucket mb client s name))
       \<and> satisfies_constraints (Config (BucketWithDefaultConfig mb client a name))
       \<and> Concurrency (DefaultConfig mb client) = 10
       \<and> PartSize (DefaultConfig mb client) = 20 * mb
       \<and> NTry (DefaultConfig mb client) = 10
       \<and> Config (BucketWithDefaultConfig mb client a name) = DefaultConfig mb client"
  using twenty_mb_positive [OF assms]
  by (simp add: satisfies_constraints_def DefaultConfig_def S3_Bucket_def
      BucketWithDefaultConfig_def NewBucket_def word_sle_eq)

theorem default_configs_satisfy_constraints_witness:
  "0 <s (1048576 :: 64 word) \<and> (1048576 :: 64 word) \<le>s 461168601842738790
   \<and> satisfies_constraints (DefaultConfig 1048576 client_204)
   \<and> PartSize (DefaultConfig 1048576 client_204) = 20971520
   \<and> satisfies_constraints (Config example_bucket)"
proof -
  have pos: "0 <s (1048576 :: 64 word)"
    by (simp add: word_sless_alt)
  have fits: "(1048576 :: 64 word) \<le>s 461168601842738790"
    by (simp add: word_sle_eq)
  note inst = default_configs_satisfy_constraints [OF pos fits, of client_204]
  from inst have "satisfies_constraints (DefaultConfig 1048576 client_204)"
    by blast
  moreover from inst have "PartSize (DefaultConfig 1048576 client_204) = 20 * 1048576"
    by blast
  ultimately show ?thesis
    using pos fits by (simp add: example_bucket_def)
qed

section \<open>Signing\<close>

lemma foldl_header_Set_other:
  "key \<notin> fst ` set kvs \<Longrightarrow>
     foldl (\<lambda>hs (name, v). header_Set hs name v) h kvs key = h key"
  by (induction kvs arbitrary: h) (auto simp: header_Set_def)

lemma signer_sign_frame:
  assumes "signer_sign P h s = Inr req'"
  shows "req' = (Request s)\<lparr>Header := Header req'\<rparr> \<and> Header req' \<noteq> None"
  using assms by (auto simp: signer_sign_def split: sum.splits)

lemma signer_sign_keeps_field:
  assumes "signer_sign P h s = Inr req'"
    and "\<forall>k region t r. key \<notin> fst ` set (auth_headers P k region t r)"
    and "Header (Request s) = Some hs"
  shows "\<exists>hs'. Header req' = Some hs' \<and> hs' key = hs key"
  using assms by (auto simp: signer_sign_def foldl_header_Set_other split: sum.splits)

lemma Sign_unfold:
  "Sign P w b req =
     signer_sign P (keys_heap w)
       \<lparr>Time = time_Now P (sent w),
        Request = req\<lparr>Header :=
          Some (header_Set (case Header req of None \<Rightarrow> Map.empty | Some hs \<Rightarrow> hs)
                  ''User-Agent'' ''S3Gof3r'')\<rparr>,
        S3Config = S3' b\<rparr>"
  by (cases "Header req") (simp_all add: Sign_def)

text \<open>
  Claim C7. \<open>Bucket.Sign\<close> hands the signer the request with a header set that is the
  given one (the empty one for nil) with \<open>User-Agent\<close> set to \<open>S3Gof3r\<close>, and nothing
  else changed. With the signer as the spec describes it, the signed request differs from
  the given one in its header set only, which is not nil; and \<open>User-Agent\<close> is still
  \<open>S3Gof3r\<close> there unless the signer's own header fields include one of that name.
\<close>

theorem Sign_changes_header_only:
  "Sign P w b req =
     signer_sign P (keys_heap w)
       \<lparr>Time = time_Now P (sent w),
        Request = req\<lparr>Header :=
          Some (header_Set (case Header req of None \<Rightarrow> Map.empty | Some hs \<Rightarrow> hs)
                  ''User-Agent'' ''S3Gof3r'')\<rparr>,
        S3Config = S3' b\<rparr>
   \<and> (\<forall>req'. Sign P w b req = Inr req' \<longrightarrow>
         req' = req\<lparr>Header := Header req'\<rparr> \<and> Header req' \<noteq> None)
   \<and> (\<forall>req'. Sign P w b req = Inr req' \<longrightarrow>
         (\<forall>k region t r. ''User-Agent'' \<notin> fst ` set (auth_headers P k region t r)) \<longrightarrow>
         (\<exists>hs. Header req' = Some hs \<and> hs ''User-Agent'' = Some [''S3Gof3r'']))"
proof (intro conjI allI impI)
  show "Sign P w b req =
     signer_sign P (keys_heap w)
       \<lparr>Time = time_Now P (sent w),
        Request = req\<lparr>Header :=
          Some (header_Set (case Header req of None \<Rightarrow> Map.empty | Some hs \<Rightarrow> hs)
                  ''User-Agent'' ''S3Gof3r'')\<rparr>,
        S3Config = S3' b\<rparr>"
    by (rule Sign_unfold)
next
  fix req'
  assume signed: "Sign P w b req = Inr req'"
  from signer_sign_frame [OF signed [unfolded Sign_unfold]]
  have "req' = (req\<lparr>Header :=
          Some (header_Set (case Header req of None \<Rightarrow> Map.empty | Some hs \<Rightarrow> hs)
                  ''User-Agent'' ''S3Gof3r'')\<rparr>)\<lparr>Header := Header req'\<rparr>
        \<and> Header req' \<noteq> None"
    by simp
  then show "req' = req\<lparr>Header := Header req'\<rparr>" and "Header req' \<noteq> None"
    by simp_all
next
  fix req'
  assume signed: "Sign P w b req = Inr req'"
    and other: "\<forall>k region t r. ''User-Agent'' \<notin> fst ` set (auth_headers P k region t r)"
  from signed other
  have "\<exists>hs'. Header req' = Some hs'
          \<and> hs' ''User-Agent''
              = header_Set (case Header req of None \<Rightarrow> Map.empty | Some hs \<Rightarrow> hs)
                  ''User-Agent'' ''S3Gof3r'' ''User-Agent''"
    unfolding Sign_unfold by (rule signer_sign_keeps_field) simp
  then show "\<exists>hs. Header req' = Some hs \<and> hs ''User-Agent'' = Some [''S3Gof3r'']"
    by (simp add: header_Set_def)
qed

definition example_request :: Request where
  "example_request =
     \<lparr>Method = ''PUT'', URL = None, Header = None, Body = Some ''data'', ContentLength = 4\<rparr>"

lemma Sign_example_succeeds:
  "\<exists>req'. Sign example_platform example_world example_bucket example_request = Inr req'"
  by (simp add: example_defs example_request_def delete_eval)

theorem Sign_changes_header_only_witness:
  "\<exists>req'. Sign example_platform example_world example_bucket example_request = Inr req'
     \<and> Method req' = ''PUT'' \<and> URL req' = None \<and> Body req' = Some ''data''
     \<and> ContentLength req' = 4
     \<and> (\<exists>hs. Header req' = Some hs \<and> hs ''User-Agent'' = Some [''S3Gof3r''])"
proof -
  from Sign_example_succeeds obtain req'
    where signed: "Sign example_platform example_world example_bucket example_request
                     = Inr req'"
    by blast
  note inst = Sign_changes_header_only
    [of example_platform example_world example_bucket example_request]
  from inst signed have frame: "req' = example_request\<lparr>Header := Header req'\<rparr>"
    by blast
  have other: "\<forall>k region t r.
      ''User-Agent'' \<notin> fst ` set (auth_headers example_platform k region t r)"
    by (simp add: example_platform_def)
  from inst signed other
  have agent: "\<exists>hs. Header req' = Some hs \<and> hs ''User-Agent'' = Some [''S3Gof3r'']"
    by blast
  have "Method req' = Method (example_request\<lparr>Header := Header req'\<rparr>)"
    and "URL req' = URL (example_request\<lparr>Header := Header req'\<rparr>)"
    and "Body req' = Body (example_request\<lparr>Header := Header req'\<rparr>)"
    and "ContentLength req' = ContentLength (example_request\<lparr>Header := Header req'\<rparr>)"
    using frame by simp_all
  then have "Method req' = ''PUT''" and "URL req' = None" and "Body req' = Some ''data''"
    and "ContentLength req' = 4"
    by (simp_all add: example_request_def)
  with signed agent show ?thesis
    by blast
qed

section \<open>Credentials are never written\<close>

lemma delete_keys_heap: "keys_heap (snd (delete P b path w)) = keys_heap w"
  by (simp add: delete_def Do_def split: sum.splits prod.splits)

lemma Delete_keys_heap: "keys_heap (snd (Delete P b path w)) = keys_heap w"
proof -
  have "keys_heap (snd (delete P b p2 (snd (delete P b path w)))) = keys_heap w" for p2
    by (simp only: delete_keys_heap)
  then show ?thesis
    by (cases "delete P b path w")
      (auto simp: Delete_def delete_keys_heap split: sum.splits prod.splits
        dest: arg_cong [where f = "\<lambda>r. keys_heap (snd r)"])
qed

text \<open>
  Claim C6. A \<open>Keys\<close> object is built with its three fields (as \<open>EnvKeys\<close> and
  \<open>InstanceKeys\<close> do) and read through the accessors, which return the fields as built.
  Allocation leaves the objects already in the store as they are, and so do sending a
  request, \<open>delete\<close> and \<open>Delete\<close> (which sign with the signer as the spec describes
  it); constructing an endpoint or a bucket keeps the pointer it is given. \<open>url\<close> and
  \<open>Sign\<close> read the state and return none.
\<close>

theorem Keys_never_written:
  "AccessKeyID (h @ [\<lparr>accessKeyID = a, secretAccessKey = s, sessionToken = t\<rparr>])
       (Some (length h)) = Inr a
   \<and> SecretAccessKey (h @ [\<lparr>accessKeyID = a, secretAccessKey = s, sessionToken = t\<rparr>])
       (Some (length h)) = Inr s
   \<and> SessionToken (h @ [\<lparr>accessKeyID = a, secretAccessKey = s, sessionToken = t\<rparr>])
       (Some (length h)) = Inr t
   \<and> AccessKeyID (snd (EnvKeys env h)) (fst (fst (EnvKeys env h)))
       = Inr (os_Getenv env ''AWS_ACCESS_KEY_ID'')
   \<and> SecretAccessKey (snd (EnvKeys env h)) (fst (fst (EnvKeys env h)))
       = Inr (os_Getenv env ''AWS_SECRET_ACCESS_KEY'')
   \<and> SessionToken (snd (EnvKeys env h)) (fst (fst (EnvKeys env h)))
       = Inr (os_Getenv env ''AWS_SESSION_TOKEN'')
   \<and> take (length h) (snd (EnvKeys env h)) = h
   \<and> keys_heap (snd (Do b req w)) = keys_heap w
   \<and> keys_heap (snd (delete P b path w)) = keys_heap w
   \<and> keys_heap (snd (Delete P b path w)) = keys_heap w
   \<and> Keys_of (New domain k) = k
   \<and> Keys_of (NewAcceleratedS3 k) = k
   \<and> Keys_of (NewAcceleratedS3InRegion k region) = k
   \<and> S3' (fst (NewBucket src name c)) = src"
  by (simp add: AccessKeyID_def SecretAccessKey_def SessionToken_def deref_def EnvKeys_def
      Let_def Do_def delete_keys_heap Delete_keys_heap New_def NewAcceleratedS3_def
      NewAcceleratedS3InRegion_def NewBucket_def)

section \<open>Escaping and parsing a query\<close>

lemma hex_digits_all:
  "list_all (\<lambda>n. ishex (upperhex n) \<and> unhex (upperhex n) = n \<and> \<not> shouldEscape (upperhex n))
     [0..<16]"
  by (simp add: upt_rec ishex_def unhex_def upperhex_def shouldEscape_def in_range_def byte_def)

lemma hex_digit:
  assumes "n < 16"
  shows "ishex (upperhex n)" and "unhex (upperhex n) = n" and "\<not> shouldEscape (upperhex n)"
proof -
  from assms have "n \<in> set [0..<16]" by simp
  with hex_digits_all
  have "ishex (upperhex n) \<and> unhex (upperhex n) = n \<and> \<not> shouldEscape (upperhex n)"
    unfolding list_all_iff by blast
  then show "ishex (upperhex n)" and "unhex (upperhex n) = n" and "\<not> shouldEscape (upperhex n)"
    by simp_all
qed

lemma byte_less_256: "byte c < 256"
  by (simp add: byte_def)

lemma char_of_byte: "char_of (byte c) = c"
  by (simp add: byte_def)

lemma byte_nibbles: "byte c div 16 < 16" "byte c mod 16 < 16"
  using byte_less_256 [of c] by simp_all

lemma unhex_hex_byte:
  "char_of (unhex (upperhex (byte c div 16)) * 16 + unhex (upperhex (byte c mod 16))) = c"
proof -
  have "unhex (upperhex (byte c div 16)) * 16 + unhex (upperhex (byte c mod 16))
        = byte c div 16 * 16 + byte c mod 16"
    by (simp add: hex_digit byte_nibbles)
  also have "\<dots> = byte c"
    by simp
  finally show ?thesis
    by (simp add: char_of_byte)
qed

lemma shouldEscape_special:
  "shouldEscape CHR ''%''" "shouldEscape CHR ''+''" "shouldEscape CHR ''&''"
  "shouldEscape CHR '';''" "shouldEscape CHR ''=''" "shouldEscape CHR '' ''"
  by (simp_all add: shouldEscape_def in_range_def byte_def)

lemma QueryEscape_roundtrip:
  "escapes_ok (QueryEscape v) \<and> unescape_query (QueryEscape v) = v"
proof (induction v)
  case Nil
  show ?case by simp
next
  case (Cons c v)
  show ?case
  proof (cases "shouldEscape c")
    case False
    with shouldEscape_special have "c \<noteq> CHR ''%''" and "c \<noteq> CHR ''+''"
      by auto
    with False Cons.IH show ?thesis
      by simp
  next
    case True
    show ?thesis
    proof (cases "c = CHR '' ''")
      case True
      with \<open>shouldEscape c\<close> Cons.IH show ?thesis
        by simp
    next
      case False
      with \<open>shouldEscape c\<close> Cons.IH show ?thesis
        by (simp add: hex_digit byte_nibbles char_of_byte)
    qed
  qed
qed

lemma QueryUnescape_QueryEscape: "QueryUnescape (QueryEscape v) = Inr v"
  by (simp add: QueryUnescape_def QueryEscape_roundtrip)

lemma QueryEscape_chars:
  "c \<in> set (QueryEscape v) \<Longrightarrow> \<not> shouldEscape c \<or> c = CHR ''+'' \<or> c = CHR ''%''"
proof (induction v)
  case Nil
  then show ?case by simp
next
  case (Cons x v)
  then show ?case
    using hex_digit(3) [OF byte_nibbles(1) [of x]] hex_digit(3) [OF byte_nibbles(2) [of x]]
    by (auto split: if_splits)
qed

lemma QueryEscape_no_separator:
  "CHR ''&'' \<notin> set (QueryEscape v)" "CHR '';'' \<notin> set (QueryEscape v)"
  using QueryEscape_chars [of "CHR ''&''" v] QueryEscape_chars [of "CHR '';''" v]
    shouldEscape_special
  by auto

lemma URL_Query_of_encoded_versionId:
  "URL_Query (''versionId='' @ QueryEscape v) = [(''versionId'', [v])]"
proof -
  let ?q = "''versionId='' @ QueryEscape v"
  have cut_amp: "strings_Cut ?q CHR ''&'' = (?q, [], False)"
    using QueryEscape_no_separator(1) [of v] by (simp add: strings_Cut_def)
  have no_semi: "CHR '';'' \<notin> set ?q"
    using QueryEscape_no_separator(2) [of v] by simp
  have cut_eq: "strings_Cut ?q CHR ''='' = (''versionId'', QueryEscape v, True)"
    by (simp add: strings_Cut_def)
  have key: "QueryUnescape ''versionId'' = Inr ''versionId''"
    by (simp add: QueryUnescape_def)
  show ?thesis
    unfolding URL_Query_def
    apply (subst parseQuery.simps)
    apply (simp only: cut_amp fst_conv snd_conv Let_def)
    apply (simp add: QueryEscape_no_separator cut_eq key QueryUnescape_QueryEscape
        del: append.simps)
    apply (simp add: parseQuery.simps)
    done
qed

lemma strings_Split_not_Nil: "strings_Split s sep \<noteq> []"
  by (induction s) (auto split: list.splits)

lemma hd_strings_Split: "hd (strings_Split s sep) = takeWhile (\<lambda>c. c \<noteq> sep) s"
  by (induction s) (auto simp: strings_Split_not_Nil split: list.splits)

lemma strings_Contains_char: "strings_Contains s [c] = (c \<in> set s)"
  by (induction s) auto

lemma Values_Encode_single:
  "Values_Encode (Values_Add [] versionParam v) = ''versionId='' @ QueryEscape v"
  by (simp add: Values_Encode_def versionParam_def shouldEscape_def in_range_def byte_def)

section \<open>What \<open>url.Parse\<close> takes for the query\<close>

lemma strings_Cut_found:
  assumes "sep \<in> set s"
  shows "s = takeWhile (\<lambda>c. c \<noteq> sep) s @ sep # fst (snd (strings_Cut s sep))"
proof -
  have "dropWhile (\<lambda>c. c \<noteq> sep) s \<noteq> []"
    using assms by (simp add: dropWhile_eq_Nil_conv)
  then obtain x xs where d: "dropWhile (\<lambda>c. c \<noteq> sep) s = x # xs"
    by (cases "dropWhile (\<lambda>c. c \<noteq> sep) s") auto
  then have "x = sep"
    using hd_dropWhile [of "\<lambda>c. c \<noteq> sep" s] by auto
  have "s = takeWhile (\<lambda>c. c \<noteq> sep) s @ dropWhile (\<lambda>c. c \<noteq> sep) s"
    by simp
  with d \<open>x = sep\<close> assms show ?thesis
    by (simp add: strings_Cut_def)
qed

lemma strings_Cut_fst: "fst (strings_Cut s sep) = takeWhile (\<lambda>c. c \<noteq> sep) s"
proof (cases "sep \<in> set s")
  case True
  then show ?thesis by (simp add: strings_Cut_def)
next
  case False
  then have "fst (strings_Cut s sep) = s"
    by (simp add: strings_Cut_def)
  also from False have "s = takeWhile (\<lambda>c. c \<noteq> sep) s"
    by (intro sym [OF takeWhile_eq_all_conv [THEN iffD2]]) auto
  finally show ?thesis .
qed

lemma strings_Cut_missing: "sep \<notin> set s \<Longrightarrow> fst (snd (strings_Cut s sep)) = []"
  by (simp add: strings_Cut_def)

lemma getScheme_loop_shape:
  assumes "getScheme_loop raw pre cs = Inr (sch, r)"
    and "raw = pre @ cs" and "CHR ''?'' \<notin> set pre"
  shows "(sch = [] \<and> r = raw) \<or> (raw = sch @ CHR '':'' # r \<and> CHR ''?'' \<notin> set sch)"
  using assms
proof (induction cs arbitrary: pre)
  case Nil
  then show ?case by simp
next
  case (Cons c cs)
  have q: "\<not> isalpha CHR ''?''" "\<not> in_range (byte CHR ''0'') (byte CHR ''9'') CHR ''?''"
    by (simp_all add: isalpha_def in_range_def byte_def)
  show ?case
  proof (cases "isalpha c \<or> (pre \<noteq> [] \<and> (in_range (byte CHR ''0'') (byte CHR ''9'') c
                  \<or> c = CHR ''+'' \<or> c = CHR ''-'' \<or> c = CHR ''.''))")
    case True
    with q have "c \<noteq> CHR ''?''"
      by auto
    with Cons.prems have a: "CHR ''?'' \<notin> set (pre @ [c])" and b: "raw = (pre @ [c]) @ cs"
      by simp_all
    from True Cons.prems(1)
    have "getScheme_loop raw (pre @ [c]) cs = Inr (sch, r)"
      by (auto split: if_splits)
    then show ?thesis
      using b a by (rule Cons.IH)
  next
    case False
    with Cons.prems show ?thesis
      by (auto split: if_splits)
  qed
qed

lemma getScheme_shape:
  assumes "getScheme raw = Inr (sch, r)"
  shows "(sch = [] \<and> r = raw) \<or> (raw = sch @ CHR '':'' # r \<and> CHR ''?'' \<notin> set sch)"
  using assms unfolding getScheme_def by (rule getScheme_loop_shape) simp_all

lemma parse_Inr:
  assumes "parse bad u = Inr q" and "q \<noteq> []"
  shows "\<exists>sch rest0. getScheme u = Inr (sch, rest0)
           \<and> q = fst (snd (strings_Cut rest0 CHR ''?''))"
proof -
  from assms have "u \<noteq> ''*''" and "\<not> stringContainsCTLByte u"
    by (auto simp: parse_def split: if_splits)
  with assms(1) obtain sch rest0 where g: "getScheme u = Inr (sch, rest0)"
    by (cases "getScheme u") (auto simp: parse_def)
  define force where "force = (suffix ''?'' rest0 \<and> count_list rest0 CHR ''?'' = 1)"
  from assms(1) \<open>u \<noteq> ''*''\<close> \<open>\<not> stringContainsCTLByte u\<close> g
  have "q = (if force then [] else fst (snd (strings_Cut rest0 CHR ''?'')))"
    unfolding force_def by (auto simp: parse_def Let_def split: if_splits)
  with assms(2) g show ?thesis
    by (auto split: if_splits)
qed

lemma parse_query_text:
  assumes "parse bad u = Inr q" and "q \<noteq> []"
  shows "u = takeWhile (\<lambda>c. c \<noteq> CHR ''?'') u @ CHR ''?'' # q"
proof -
  from parse_Inr [OF assms] obtain sch rest0
    where g: "getScheme u = Inr (sch, rest0)"
      and q: "q = fst (snd (strings_Cut rest0 CHR ''?''))"
    by blast
  from q assms(2) have found: "CHR ''?'' \<in> set rest0"
    using strings_Cut_missing [of "CHR ''?''" rest0] by auto
  from strings_Cut_found [OF found] q
  have rest0: "rest0 = takeWhile (\<lambda>c. c \<noteq> CHR ''?'') rest0 @ CHR ''?'' # q"
    by simp
  from getScheme_shape [OF g] show ?thesis
  proof
    assume "sch = [] \<and> rest0 = u"
    with rest0 show ?thesis by simp
  next
    assume a: "u = sch @ CHR '':'' # rest0 \<and> CHR ''?'' \<notin> set sch"
    then have "\<forall>x\<in>set sch. x \<noteq> CHR ''?''"
      by auto
    with a have "takeWhile (\<lambda>c. c \<noteq> CHR ''?'') u
                 = sch @ CHR '':'' # takeWhile (\<lambda>c. c \<noteq> CHR ''?'') rest0"
      by (simp add: takeWhile_append2)
    with a rest0 show ?thesis by simp
  qed
qed

lemma url_Parse_query_text:
  assumes "url_Parse bad bPath = Inr q" and "q \<noteq> []"
  shows "\<exists>frag. bPath = takeWhile (\<lambda>c. c \<noteq> CHR ''?'') bPath @ CHR ''?'' # q @ frag"
proof -
  define u where "u = takeWhile (\<lambda>c. c \<noteq> CHR ''#'') bPath"
  define rest where "rest = dropWhile (\<lambda>c. c \<noteq> CHR ''#'') bPath"
  have split: "bPath = u @ rest"
    by (simp add: u_def rest_def)
  from assms(1) have "parse bad u = Inr q"
    by (auto simp: url_Parse_def Let_def strings_Cut_fst u_def split: sum.splits if_splits)
  from parse_query_text [OF this assms(2)]
  have u: "u = takeWhile (\<lambda>c. c \<noteq> CHR ''?'') u @ CHR ''?'' # q" .
  then have "CHR ''?'' \<in> set u"
    by (metis in_set_conv_decomp)
  then have "takeWhile (\<lambda>c. c \<noteq> CHR ''?'') bPath = takeWhile (\<lambda>c. c \<noteq> CHR ''?'') u"
    unfolding split by (simp add: takeWhile_append1)
  with u split have "bPath = takeWhile (\<lambda>c. c \<noteq> CHR ''?'') bPath @ CHR ''?'' # q @ rest"
    by (metis append.assoc append_Cons)
  then show ?thesis ..
qed

lemma URL_Query_empty: "URL_Query [] = []"
  by (simp add: URL_Query_def parseQuery.simps)

lemma Values_Get_empty: "Values_Get [] k = []"
  by (simp add: Values_Get_def)

lemma url_unfold:
  assumes "url_Parse (bad_authority P) bPath = Inr q"
  shows "url P b bPath =
     Inr \<lparr>Scheme = Scheme' (Config b),
          Host = (if CHR ''.'' \<in> set (Name b) \<or> PathStyle (Config b) then Domain_of (S3' b)
                  else path_Clean (Name b @ ''.'' @ Domain_of (S3' b))),
          Path = path_Clean
                   ((if CHR ''.'' \<in> set (Name b) \<or> PathStyle (Config b)
                     then ''/'' @ Name b @ ''/'' else ''/'')
                    @ (if Values_Get (URL_Query q) versionParam \<noteq> []
                       then takeWhile (\<lambda>c. c \<noteq> CHR ''?'') bPath else bPath)),
          RawQuery = (if Values_Get (URL_Query q) versionParam \<noteq> []
                      then ''versionId='' @ QueryEscape (Values_Get (URL_Query q) versionParam)
                      else [])\<rparr>"
proof -
  have e: "Values_Encode [] = []"
    by (simp add: Values_Encode_def)
  show ?thesis
    unfolding url_def Let_def
    by (simp add: assms strings_Contains_char hd_strings_Split DomainForBucket_def
        Values_Encode_single e del: Values_Add.simps)
qed

section \<open>Paths that \<open>path.Clean\<close> leaves alone\<close>

lemma Clean_loop_plain:
  assumes "plain_segment s" and "rest = [] \<or> hd rest = CHR ''/''"
  shows "Clean_loop r out dd (s @ rest) =
           Clean_loop r
             ((if r \<and> length out \<noteq> 1 \<or> \<not> r \<and> length out \<noteq> 0 then out @ ''/'' else out) @ s)
             dd rest"
proof -
  from assms(1) obtain c cs where s: "s = c # cs"
    by (cases s) (auto simp: plain_segment_def)
  with assms(1) have c: "c \<noteq> CHR ''/''" and cs: "CHR ''/'' \<notin> set cs"
    by (auto simp: plain_segment_def)
  have A: "\<not> (c = CHR ''.'' \<and> (cs @ rest = [] \<or> take 1 (cs @ rest) = ''/''))"
    using assms(1) s by (cases cs) (auto simp: plain_segment_def)
  have B: "\<not> (c = CHR ''.'' \<and> take 1 (cs @ rest) = ''.''
              \<and> (drop 1 (cs @ rest) = [] \<or> take 1 (drop 1 (cs @ rest)) = ''/''))"
  proof (cases cs)
    case Nil
    with assms(1) s show ?thesis by (auto simp: plain_segment_def)
  next
    case (Cons d ds)
    with assms(1) s show ?thesis by (cases ds) (auto simp: plain_segment_def)
  qed
  have all: "\<forall>x\<in>set (c # cs). x \<noteq> CHR ''/''"
    using c cs by auto
  have rest: "takeWhile (\<lambda>x. x \<noteq> CHR ''/'') rest = []" "dropWhile (\<lambda>x. x \<noteq> CHR ''/'') rest = rest"
    using assms(2) by (cases rest; simp)+
  have tw: "takeWhile (\<lambda>x. x \<noteq> CHR ''/'') (c # (cs @ rest)) = c # cs"
    using takeWhile_append2 [of "c # cs" "\<lambda>x. x \<noteq> CHR ''/''" rest] all rest by simp
  have dw: "dropWhile (\<lambda>x. x \<noteq> CHR ''/'') (c # (cs @ rest)) = rest"
    using dropWhile_append2 [of "c # cs" "\<lambda>x. x \<noteq> CHR ''/''" rest] all rest by simp
  have "Clean_loop r out dd (c # (cs @ rest)) =
          Clean_loop r
            ((if r \<and> length out \<noteq> 1 \<or> \<not> r \<and> length out \<noteq> 0 then out @ ''/'' else out)
             @ takeWhile (\<lambda>x. x \<noteq> CHR ''/'') (c # (cs @ rest)))
            dd (dropWhile (\<lambda>x. x \<noteq> CHR ''/'') (c # (cs @ rest)))"
    using c A B by (simp (no_asm_simp) only: Clean_loop.simps Let_def if_False)
  then show ?thesis
    unfolding tw dw s by simp
qed

lemma Clean_loop_segments:
  assumes "list_all plain_segment segs"
  shows "Clean_loop True out dd (concat (map ((#) CHR ''/'') segs)) =
           (if length out = 1 then out @ drop 1 (concat (map ((#) CHR ''/'') segs))
            else out @ concat (map ((#) CHR ''/'') segs))"
  using assms
proof (induction segs arbitrary: out)
  case Nil
  then show ?case by simp
next
  case (Cons s ss)
  define R where "R = concat (map ((#) CHR ''/'') ss)"
  have R: "R = [] \<or> hd R = CHR ''/''"
    unfolding R_def by (cases ss) simp_all
  from Cons.prems have s: "plain_segment s" and ss: "list_all plain_segment ss"
    by simp_all
  then have ne: "s \<noteq> []"
    by (simp add: plain_segment_def)
  define out' where "out' = (if length out \<noteq> 1 then out @ ''/'' else out) @ s"
  from ne have len: "length out' \<noteq> 1"
    unfolding out'_def by (cases s) auto
  have "Clean_loop True out dd (concat (map ((#) CHR ''/'') (s # ss)))
          = Clean_loop True out dd (s @ R)"
    by (simp add: R_def)
  also have "\<dots> = Clean_loop True out' dd R"
    using Clean_loop_plain [OF s R, of True out dd] by (simp add: out'_def)
  also have "\<dots> = out' @ R"
    using Cons.IH [OF ss, of out'] len by (simp add: R_def)
  finally show ?case
    by (simp add: out'_def R_def)
qed

lemma strings_Split_join: "concat (map ((#) sep) (strings_Split s sep)) = sep # s"
proof (induction s)
  case Nil
  show ?case by simp
next
  case (Cons c cs)
  obtain p ps where sp: "strings_Split cs sep = p # ps"
    using strings_Split_not_Nil [of cs sep] by (cases "strings_Split cs sep") auto
  with Cons show ?case by simp
qed

lemma path_Clean_segments:
  assumes "list_all plain_segment segs" and "segs \<noteq> []"
  shows "path_Clean (concat (map ((#) CHR ''/'') segs)) = concat (map ((#) CHR ''/'') segs)"
proof -
  from assms(2) obtain s ss where segs: "segs = s # ss"
    by (cases segs) auto
  define X where "X = s @ concat (map ((#) CHR ''/'') ss)"
  have path: "concat (map ((#) CHR ''/'') segs) = CHR ''/'' # X"
    by (simp add: segs X_def)
  have "Clean_loop True ''/'' 1 X = Clean_loop True ''/'' 1 (CHR ''/'' # X)"
    by simp
  also have "\<dots> = CHR ''/'' # X"
    using Clean_loop_segments [OF assms(1), of "''/''" 1] by (simp add: path)
  finally show ?thesis
    by (simp add: path path_Clean_def)
qed

lemma path_Clean_plain_key:
  assumes "list_all plain_segment (strings_Split key CHR ''/'')"
  shows "path_Clean (CHR ''/'' # key) = CHR ''/'' # key"
  using path_Clean_segments [OF assms] strings_Split_not_Nil [of key "CHR ''/''"]
  by (simp add: strings_Split_join)

lemma path_Clean_plain_bucket_key:
  assumes "plain_segment name" and "list_all plain_segment (strings_Split key CHR ''/'')"
  shows "path_Clean (CHR ''/'' # name @ CHR ''/'' # key) = CHR ''/'' # name @ CHR ''/'' # key"
  using path_Clean_segments [of "name # strings_Split key CHR ''/''"] assms
  by (simp add: strings_Split_join)

lemma path_Clean_plain_segment:
  assumes "plain_segment s"
  shows "path_Clean s = s"
proof -
  from assms obtain c cs where s: "s = c # cs" and c: "c \<noteq> CHR ''/''"
    by (cases s) (auto simp: plain_segment_def)
  have "Clean_loop False [] 0 s = s"
    using Clean_loop_plain [OF assms, of "[]" False "[]" 0] by simp
  with s c show ?thesis
    by (simp add: path_Clean_def)
qed

section \<open>The URL of an object\<close>

text \<open>
  The path of the URL is not the concatenation of bucket and key but \<open>path.Clean\<close> of
  it: for the bucket \<open>my.bucket\<close> and the key \<open>../other/k\<close> the path is \<open>/other/k\<close>, which
  does not name the bucket at all. A doubled slash in the key is likewise reduced to one.
\<close>

theorem url_path_cleaned_counterexample:
  "CHR ''.'' \<in> set ''my.bucket''
   \<and> url example_platform (example_bucket\<lparr>Name := ''my.bucket''\<rparr>) ''../other/k''
       = Inr \<lparr>Scheme = ''https'', Host = ''s3.amazonaws.com'', Path = ''/other/k'',
               RawQuery = []\<rparr>
   \<and> ''/other/k'' \<noteq> ''/'' @ ''my.bucket'' @ ''/'' @ ''../other/k''"
  by code_simp

lemma url_double_slash_example:
  "url example_platform example_bucket ''a//b''
     = Inr \<lparr>Scheme = ''https'', Host = ''bkt.s3.amazonaws.com'', Path = ''/a/b'',
             RawQuery = []\<rparr>"
  by code_simp

text \<open>
  Claim C9, as the code has it. \<open>url\<close> returns a URL for every key that \<open>url.Parse\<close>
  accepts. \<open>key'\<close> is the key, cut at its first \<open>?\<close> when it carries a non-empty
  \<open>versionId\<close>. When the bucket name contains a period (whether \<open>PathStyle\<close> is on or
  off), or \<open>PathStyle\<close> is on, the host is the bare endpoint domain and the path is
  \<open>path.Clean\<close> of \<open>"/" + bucket + "/" + key'\<close>. Otherwise the host is \<open>path.Clean\<close> of the
  bucket-qualified domain and the path is \<open>path.Clean\<close> of \<open>"/" + key'\<close>. \<open>path.Clean\<close>
  changes nothing when the bucket name and every slash-separated element of \<open>key'\<close> are
  plain (not empty, neither \<open>.\<close> nor \<open>..\<close>), and nothing of a host that is plain.
\<close>

theorem url_addressing_style:
  assumes "url_Parse (bad_authority P) key = Inr q"
    and "key' = (if Values_Get (URL_Query q) versionParam \<noteq> []
                 then takeWhile (\<lambda>c. c \<noteq> CHR ''?'') key else key)"
  shows "\<exists>u. url P b key = Inr u
         \<and> (CHR ''.'' \<in> set (Name b) \<or> PathStyle (Config b) \<longrightarrow>
              Host u = Domain_of (S3' b)
              \<and> Path u = path_Clean (''/'' @ Name b @ ''/'' @ key'))
         \<and> (CHR ''.'' \<notin> set (Name b) \<and> \<not> PathStyle (Config b) \<longrightarrow>
              Host u = path_Clean (DomainForBucket (S3' b) (Name b))
              \<and> Path u = path_Clean (''/'' @ key'))
         \<and> (plain_segment (Name b) \<and> list_all plain_segment (strings_Split key' CHR ''/'') \<longrightarrow>
              path_Clean (''/'' @ Name b @ ''/'' @ key') = ''/'' @ Name b @ ''/'' @ key'
              \<and> path_Clean (''/'' @ key') = ''/'' @ key')
         \<and> (plain_segment (DomainForBucket (S3' b) (Name b)) \<longrightarrow>
              path_Clean (DomainForBucket (S3' b) (Name b)) = DomainForBucket (S3' b) (Name b))"
  unfolding url_unfold [OF assms(1)] assms(2) [symmetric]
  by (simp add: path_Clean_plain_key path_Clean_plain_bucket_key path_Clean_plain_segment
      DomainForBucket_def)

theorem url_addressing_style_witness:
  "url_Parse (bad_authority example_platform) ''a/b'' = Inr []
   \<and> Values_Get (URL_Query []) versionParam = []
   \<and> CHR ''.'' \<in> set ''my.bucket'' \<and> CHR ''.'' \<notin> set ''bkt''
   \<and> \<not> PathStyle (Config example_bucket)
   \<and> plain_segment ''my.bucket'' \<and> plain_segment ''bkt''
   \<and> list_all plain_segment (strings_Split ''a/b'' CHR ''/'')
   \<and> plain_segment (DomainForBucket (S3' example_bucket) ''bkt'')
   \<and> (\<exists>u. url example_platform (example_bucket\<lparr>Name := ''my.bucket''\<rparr>) ''a/b'' = Inr u
          \<and> Host u = ''s3.amazonaws.com'' \<and> Path u = ''/my.bucket/a/b'')
   \<and> (\<exists>u. url example_platform example_bucket ''a/b'' = Inr u
          \<and> Host u = ''bkt.s3.amazonaws.com'' \<and> Path u = ''/a/b'')"
proof -
  have p: "url_Parse (bad_authority example_platform) ''a/b'' = Inr []"
    by code_simp
  have v: "Values_Get (URL_Query []) versionParam = []"
    by code_simp
  then have k: "''a/b'' = (if Values_Get (URL_Query []) versionParam \<noteq> []
                           then takeWhile (\<lambda>c. c \<noteq> CHR ''?'') ''a/b'' else ''a/b'')"
    by simp
  have facts: "CHR ''.'' \<in> set ''my.bucket''" "CHR ''.'' \<notin> set ''bkt''"
    "\<not> PathStyle (Config example_bucket)" "plain_segment ''my.bucket''"
    "plain_segment ''bkt''" "list_all plain_segment (strings_Split ''a/b'' CHR ''/'')"
    "plain_segment (DomainForBucket (S3' example_bucket) ''bkt'')"
    by (simp_all add: example_defs plain_segment_def DomainForBucket_def)
  have b: "Name example_bucket = ''bkt''" "Domain_of (S3' example_bucket) = ''s3.amazonaws.com''"
    by (simp_all add: example_defs)
  from url_addressing_style [OF p k, of "example_bucket\<lparr>Name := ''my.bucket''\<rparr>"] facts b
  have dotted: "\<exists>u. url example_platform (example_bucket\<lparr>Name := ''my.bucket''\<rparr>) ''a/b'' = Inr u
          \<and> Host u = ''s3.amazonaws.com'' \<and> Path u = ''/my.bucket/a/b''"
    by auto
  from url_addressing_style [OF p k, of example_bucket] facts b
  have plain: "\<exists>u. url example_platform example_bucket ''a/b'' = Inr u
          \<and> Host u = ''bkt.s3.amazonaws.com'' \<and> Path u = ''/a/b''"
    by (auto simp: DomainForBucket_def)
  from p v facts dotted plain show ?thesis
    by blast
qed

text \<open>
  Claim C10. Let \<open>url.Parse\<close> accept the path, with raw query \<open>q\<close>, and let the first
  \<open>versionId\<close> of \<open>q\<close> be \<open>v\<close>, not empty. Then \<open>url\<close> returns a URL whose raw query is
  \<open>versionId=\<close> followed by the escaped \<open>v\<close>, which parses back to the one parameter
  \<open>versionId\<close> with the one value \<open>v\<close>; the input is the text before its first \<open>?\<close>, then
  \<open>?\<close>, \<open>q\<close> and possibly a fragment, and the URL's path is built from the text before
  that \<open>?\<close> alone.
\<close>

theorem url_keeps_versionId_only:
  assumes "url_Parse (bad_authority P) bPath = Inr q"
    and "Values_Get (URL_Query q) versionParam = v" and "v \<noteq> []"
  shows "\<exists>u frag. url P b bPath = Inr u
           \<and> bPath = takeWhile (\<lambda>c. c \<noteq> CHR ''?'') bPath @ ''?'' @ q @ frag
           \<and> RawQuery u = ''versionId='' @ QueryEscape v
           \<and> URL_Query (RawQuery u) = [(''versionId'', [v])]
           \<and> Path u = path_Clean
                 ((if CHR ''.'' \<in> set (Name b) \<or> PathStyle (Config b)
                   then ''/'' @ Name b @ ''/'' else ''/'')
                  @ takeWhile (\<lambda>c. c \<noteq> CHR ''?'') bPath)"
proof -
  from assms(2,3) have "q \<noteq> []"
    by (auto simp: URL_Query_empty Values_Get_empty)
  from url_Parse_query_text [OF assms(1) this] obtain frag
    where frag: "bPath = takeWhile (\<lambda>c. c \<noteq> CHR ''?'') bPath @ ''?'' @ q @ frag"
    by auto
  from url_unfold [OF assms(1), of b] assms(2,3) obtain u
    where u: "url P b bPath = Inr u"
      and rq: "RawQuery u = ''versionId='' @ QueryEscape v"
      and pa: "Path u = path_Clean
                 ((if CHR ''.'' \<in> set (Name b) \<or> PathStyle (Config b)
                   then ''/'' @ Name b @ ''/'' else ''/'')
                  @ takeWhile (\<lambda>c. c \<noteq> CHR ''?'') bPath)"
    by simp
  have "URL_Query (RawQuery u) = [(''versionId'', [v])]"
    unfolding rq by (rule URL_Query_of_encoded_versionId)
  with u frag rq pa show ?thesis
    by blast
qed

theorem url_keeps_versionId_only_witness:
  "url_Parse (bad_authority example_platform) ''a/b?versionId=3&x=1'' = Inr ''versionId=3&x=1''
   \<and> Values_Get (URL_Query ''versionId=3&x=1'') versionParam = ''3''
   \<and> (\<exists>u. url example_platform example_bucket ''a/b?versionId=3&x=1'' = Inr u
          \<and> RawQuery u = ''versionId=3'' \<and> Path u = ''/a/b''
          \<and> URL_Query (RawQuery u) = [(''versionId'', [''3''])])"
proof -
  have p: "url_Parse (bad_authority example_platform) ''a/b?versionId=3&x=1''
             = Inr ''versionId=3&x=1''"
    by code_simp
  have g: "Values_Get (URL_Query ''versionId=3&x=1'') versionParam = ''3''"
    by code_simp
  have e: "QueryEscape ''3'' = ''3''" "takeWhile (\<lambda>c. c \<noteq> CHR ''?'') ''a/b?versionId=3&x=1'' = ''a/b''"
    "path_Clean ''/a/b'' = ''/a/b''" "CHR ''.'' \<notin> set (Name example_bucket)"
    "\<not> PathStyle (Config example_bucket)"
    by code_simp+
  from url_keeps_versionId_only [OF p g, of example_bucket] e
  have "\<exists>u. url example_platform example_bucket ''a/b?versionId=3&x=1'' = Inr u
          \<and> RawQuery u = ''versionId=3'' \<and> Path u = ''/a/b''
          \<and> URL_Query (RawQuery u) = [(''versionId'', [''3''])]"
    by auto
  with p g show ?thesis
    by blast
qed

end
